theory Spec2Isabelle
  imports Complex_Main "HOL-Library.Log_Nat"
begin

section \<open>The Bohmian mechanics engine of \<^verbatim>\<open>phys-eng-bohm.js\<close>\<close>

text \<open>
  The engine computes one particle trajectory guided by the superposition of two Gaussian
  wave packets. The embedding follows the source function by function, twice: once with
  the exact reals for the numbers, and once with IEEE-754 doubles (the second part of the
  definitions, with the suffix \<open>_d\<close>).

  Exact reals. In the first embedding \<open>+\<close>, \<open>-\<close>, \<open>*\<close>, \<open>/\<close>, \<^verbatim>\<open>Math.exp\<close>,
  \<^verbatim>\<open>Math.cos\<close> and \<^verbatim>\<open>Math.sin\<close> are the real operations, with no rounding, no overflow
  or underflow and no \<^verbatim>\<open>NaN\<close> or \<^verbatim>\<open>Infinity\<close>. It carries the results that do not
  depend on rounding: the length of the trajectory, its first entry, the store, the
  expressions of the packet and its gradient, and the symmetric two-slit case. The only
  division of the source whose divisor can be zero unguarded is the one by \<^verbatim>\<open>widthSq\<close>
  (for \<^verbatim>\<open>width = 0\<close>), where JavaScript yields \<^verbatim>\<open>Infinity\<close> or \<^verbatim>\<open>NaN\<close> and HOL yields 0:
  the theorems of this embedding about the value or the gradient of a packet, and about
  the velocity and the positions computed from them, assume a positive width; those about
  the length, the first entry, the times and the store do not depend on it.

  Doubles. The second embedding carries the results that depend on what a double is: the
  Euler step and its times, the guard of \<^verbatim>\<open>divide\<close>, and the steps at a node of the wave
  function.

  The step count \<^verbatim>\<open>steps\<close> and the loop counter \<^verbatim>\<open>i\<close> are integers in both.

  Objects. \<^verbatim>\<open>config.initialPosition\<close>, \<^verbatim>\<open>config.slit1\<close> and \<^verbatim>\<open>config.slit2\<close> are
  references to objects; the store of the first embedding maps addresses to the objects,
  so that the copy \<^verbatim>\<open>{ ...initialPosition }\<close> and the in-place updates of
  \<^verbatim>\<open>currentPosition\<close> are what they are in the source.
\<close>

subsection \<open>Physical constants\<close>

definition H_BAR :: real where
  "H_BAR = 1"

definition MASS :: real where
  "MASS = 1"

subsection \<open>Part 1: complex number helpers\<close>

text \<open>A complex number is an object \<^verbatim>\<open>{ re, im }\<close>.\<close>

record complex_val =
  re :: real
  im :: real

text \<open>\<^verbatim>\<open>complex(re = 0, im = 0)\<close>; every call of the source passes both arguments.\<close>

definition complex :: "real \<Rightarrow> real \<Rightarrow> complex_val" where
  "complex r i = \<lparr>re = r, im = i\<rparr>"

definition add :: "complex_val \<Rightarrow> complex_val \<Rightarrow> complex_val" where
  "add a b = complex (re a + re b) (im a + im b)"

definition multiply :: "complex_val \<Rightarrow> complex_val \<Rightarrow> complex_val" where
  "multiply a b = complex (re a * re b - im a * im b) (re a * im b + im a * re b)"

text \<open>\<^verbatim>\<open>divide\<close> of the source; the name \<open>divide\<close> is HOL's division.\<close>

definition divide_c :: "complex_val \<Rightarrow> complex_val \<Rightarrow> complex_val" where
  "divide_c a b =
     (let denominator = re b * re b + im b * im b
      in if denominator = 0 then complex 0 0
         else complex ((re a * re b + im a * im b) / denominator)
                      ((im a * re b - re a * im b) / denominator))"

subsection \<open>Part 2: the wave function\<close>

record packet_params =
  centerX :: real
  centerY :: real
  width :: real
  momentumX :: real
  momentumY :: real

definition gaussianPacket :: "real \<Rightarrow> real \<Rightarrow> packet_params \<Rightarrow> complex_val" where
  "gaussianPacket x y params =
     (let widthSq = width params * width params;
          dx = x - centerX params;
          dy = y - centerY params;
          magnitude = exp (- (dx * dx + dy * dy) / (4 * widthSq));
          phaseAngle = (momentumX params * dx + momentumY params * dy) / H_BAR;
          phase = complex (cos phaseAngle) (sin phaseAngle)
      in multiply (complex magnitude 0) phase)"

text \<open>The two-element array \<^verbatim>\<open>[dPsi_dx, dPsi_dy]\<close> is a pair.\<close>

definition gaussianPacketGradient ::
  "real \<Rightarrow> real \<Rightarrow> packet_params \<Rightarrow> complex_val \<times> complex_val" where
  "gaussianPacketGradient x y params =
     (let widthSq = width params * width params;
          psi = gaussianPacket x y params;
          d_dx_term = complex (- (x - centerX params) / (2 * widthSq)) (momentumX params / H_BAR);
          d_dy_term = complex (- (y - centerY params) / (2 * widthSq)) (momentumY params / H_BAR);
          dPsi_dx = multiply psi d_dx_term;
          dPsi_dy = multiply psi d_dy_term
      in (dPsi_dx, dPsi_dy))"

subsection \<open>Part 3: the guiding equation and the simulation loop\<close>

text \<open>
  A position object \<^verbatim>\<open>{ x, y }\<close> and a trajectory entry \<^verbatim>\<open>{ t, x, y }\<close>. The fields
  carry a prefix, since \<open>x\<close>, \<open>y\<close> and \<open>t\<close> are variables here.
\<close>

record position =
  pos_x :: real
  pos_y :: real

record sample =
  sample_t :: real
  sample_x :: real
  sample_y :: real

type_synonym addr = nat

text \<open>
  The store: the position objects and the packet objects by address, and the next free
  address. An object literal takes the next free address.
\<close>

record store =
  points :: "addr \<Rightarrow> position"
  packets :: "addr \<Rightarrow> packet_params"
  next_addr :: addr

record config =
  initialPosition :: addr
  slit1 :: addr
  slit2 :: addr
  dt :: real
  steps :: int

text \<open>\<^verbatim>\<open>{ ...p }\<close>: a new object with the fields of the object at \<open>p\<close>.\<close>

definition spread_copy :: "store \<Rightarrow> addr \<Rightarrow> addr \<times> store" where
  "spread_copy s p =
     (next_addr s,
      s\<lparr>points := (points s)(next_addr s := points s p), next_addr := Suc (next_addr s)\<rparr>)"

text \<open>
  The \<^verbatim>\<open>for\<close> loop of \<^verbatim>\<open>runSimulation\<close> (lines 131 to 160), from the counter \<open>i\<close> on:
  \<open>currentPosition\<close> is the address of the run's own position object, which the body
  updates in place; \<^verbatim>\<open>trajectory.push\<close> appends at the end.
\<close>

function simulation_loop ::
  "config \<Rightarrow> addr \<Rightarrow> int \<Rightarrow> real \<Rightarrow> store \<Rightarrow> sample list \<Rightarrow> store \<times> sample list" where
  "simulation_loop cfg currentPosition i currentTime s trajectory =
     (if i < steps cfg then
        let x = pos_x (points s currentPosition);
            y = pos_y (points s currentPosition);
            psi1 = gaussianPacket x y (packets s (slit1 cfg));
            psi2 = gaussianPacket x y (packets s (slit2 cfg));
            totalPsi = add psi1 psi2;
            grad1 = gaussianPacketGradient x y (packets s (slit1 cfg));
            grad2 = gaussianPacketGradient x y (packets s (slit2 cfg));
            totalGradPsi = (add (fst grad1) (fst grad2), add (snd grad1) (snd grad2));
            velocityTermX = divide_c (fst totalGradPsi) totalPsi;
            velocityTermY = divide_c (snd totalGradPsi) totalPsi;
            velocityX = (H_BAR / MASS) * im velocityTermX;
            velocityY = (H_BAR / MASS) * im velocityTermY;
            s1 = s\<lparr>points := (points s)(currentPosition :=
                   (points s currentPosition)
                     \<lparr>pos_x := pos_x (points s currentPosition) + velocityX * dt cfg\<rparr>)\<rparr>;
            s2 = s1\<lparr>points := (points s1)(currentPosition :=
                   (points s1 currentPosition)
                     \<lparr>pos_y := pos_y (points s1 currentPosition) + velocityY * dt cfg\<rparr>)\<rparr>;
            currentTime' = currentTime + dt cfg;
            trajectory' = trajectory @
              [\<lparr>sample_t = currentTime',
                sample_x = pos_x (points s2 currentPosition),
                sample_y = pos_y (points s2 currentPosition)\<rparr>]
        in simulation_loop cfg currentPosition (i + 1) currentTime' s2 trajectory'
      else (s, trajectory))"
  by pat_completeness auto

termination
  by (relation "measure (\<lambda>(cfg, currentPosition, i, currentTime, s, trajectory).
        nat (steps cfg - i))") auto

declare simulation_loop.simps [simp del]

text \<open>
  \<^verbatim>\<open>runSimulation(config)\<close>: the final store and the returned trajectory. The source has
  no \<^verbatim>\<open>throw\<close> and no validation: the function returns a trajectory for every
  configuration.
\<close>

definition runSimulation :: "store \<Rightarrow> config \<Rightarrow> store \<times> sample list" where
  "runSimulation s cfg =
     (let currentTime = 0;
          (currentPosition, s0) = spread_copy s (initialPosition cfg);
          trajectory = [\<lparr>sample_t = currentTime,
                         sample_x = pos_x (points s0 currentPosition),
                         sample_y = pos_y (points s0 currentPosition)\<rparr>]
      in simulation_loop cfg currentPosition 0 currentTime s0 trajectory)"

text \<open>The trajectory a run returns, and the sample of the configured initial position.\<close>

definition trajectory_of :: "store \<Rightarrow> config \<Rightarrow> sample list" where
  "trajectory_of s cfg = snd (runSimulation s cfg)"

definition initial_sample :: "store \<Rightarrow> config \<Rightarrow> sample" where
  "initial_sample s cfg =
     \<lparr>sample_t = 0,
      sample_x = pos_x (points s (initialPosition cfg)),
      sample_y = pos_y (points s (initialPosition cfg))\<rparr>"

subsection \<open>The specification's words, for comparison with the loop body\<close>

text \<open>
  The velocity evaluator of section 4.3 of the specification: superpose the two packets'
  values and gradients, divide each gradient component by the total value, and take
  \<open>(\<hbar>/mass) * Im\<close> of the quotient.
\<close>

definition spec_velocity :: "packet_params \<Rightarrow> packet_params \<Rightarrow> real \<Rightarrow> real \<Rightarrow> real \<times> real" where
  "spec_velocity p1 p2 x y =
     (let totalValue = add (gaussianPacket x y p1) (gaussianPacket x y p2);
          totalGradient_x =
            add (fst (gaussianPacketGradient x y p1)) (fst (gaussianPacketGradient x y p2));
          totalGradient_y =
            add (snd (gaussianPacketGradient x y p1)) (snd (gaussianPacketGradient x y p2))
      in ((H_BAR / MASS) * im (divide_c totalGradient_x totalValue),
          (H_BAR / MASS) * im (divide_c totalGradient_y totalValue)))"

text \<open>
  The update of section 4.4, on a sample: \<open>x' = x + velocityX * dt\<close>,
  \<open>y' = y + velocityY * dt\<close>, \<open>t' = t + dt\<close>.
\<close>

definition spec_step :: "packet_params \<Rightarrow> packet_params \<Rightarrow> real \<Rightarrow> sample \<Rightarrow> sample" where
  "spec_step p1 p2 h e =
     \<lparr>sample_t = sample_t e + h,
      sample_x = sample_x e + fst (spec_velocity p1 p2 (sample_x e) (sample_y e)) * h,
      sample_y = sample_y e + snd (spec_velocity p1 p2 (sample_x e) (sample_y e)) * h\<rparr>"

text \<open>The sample that the loop would push for the current time and position object.\<close>

definition current_sample :: "store \<Rightarrow> addr \<Rightarrow> real \<Rightarrow> sample" where
  "current_sample s p ct =
     \<lparr>sample_t = ct, sample_x = pos_x (points s p), sample_y = pos_y (points s p)\<rparr>"

text \<open>The store after the position object at \<open>p\<close> has taken the coordinates of a sample.\<close>

definition moved :: "store \<Rightarrow> addr \<Rightarrow> sample \<Rightarrow> store" where
  "moved s p e =
     s\<lparr>points := (points s)(p := (points s p)\<lparr>pos_x := sample_x e, pos_y := sample_y e\<rparr>)\<rparr>"

subsection \<open>Valid configurations and the example of the source\<close>

text \<open>
  The specification's valid configuration (sections 3 and 7): a positive width on both
  slits, a positive time step and a non-negative step count.
\<close>

definition valid_config :: "store \<Rightarrow> config \<Rightarrow> bool" where
  "valid_config s cfg =
     (0 < width (packets s (slit1 cfg)) \<and> 0 < width (packets s (slit2 cfg)) \<and>
      0 < dt cfg \<and> 0 \<le> steps cfg)"

text \<open>
  The example usage at the end of the source (lines 179 to 203): the initial position at
  address 0, the two slits at addresses 1 and 2.
\<close>

definition example_store :: store where
  "example_store =
     \<lparr>points = (\<lambda>a. \<lparr>pos_x = - 1 / 2, pos_y = - 5\<rparr>),
      packets = (\<lambda>a. if a = 2
         then \<lparr>centerX = 0, centerY = - 3 / 2, width = 1, momentumX = 0, momentumY = 5\<rparr>
         else \<lparr>centerX = 0, centerY = 3 / 2, width = 1, momentumX = 0, momentumY = 5\<rparr>),
      next_addr = 3\<rparr>"

definition example_config :: config where
  "example_config = \<lparr>initialPosition = 0, slit1 = 1, slit2 = 2, dt = 1 / 50, steps = 500\<rparr>"

subsection \<open>The claims' words, for comparison with the code\<close>

text \<open>
  Section 7 of the specification asks for a run that validates its configuration at entry
  and reports a configuration error instead of a trajectory. This is that run, built on
  the code's \<^verbatim>\<open>runSimulation\<close>.
\<close>

datatype run_error = ConfigurationError

definition spec_validated_run :: "store \<Rightarrow> config \<Rightarrow> run_error + sample list" where
  "spec_validated_run s cfg =
     (if valid_config s cfg then Inr (snd (runSimulation s cfg)) else Inl ConfigurationError)"



subsection \<open>Further inputs\<close>




text \<open>The example of the source with a negative time step and two steps.\<close>

definition backward_config :: config where
  "backward_config = \<lparr>initialPosition = 0, slit1 = 1, slit2 = 2, dt = - 1 / 50, steps = 2\<rparr>"

section \<open>The same engine in double arithmetic\<close>

subsection \<open>IEEE-754 binary64 numbers\<close>

text \<open>
  A JavaScript number: \<^verbatim>\<open>NaN\<close>, an infinity with its sign, or a finite number with its
  sign (\<open>True\<close> for negative) and its magnitude, so that \<open>Fin False 0\<close> is \<open>+0\<close> and
  \<open>Fin True 0\<close> is \<open>-0\<close>. The values of the type that are doubles are marked by
  \<open>is_double\<close> below; every operation returns one.
\<close>

datatype double = NaN | Infinity bool | Fin bool real

text \<open>
  Rounding to nearest, ties to even. Every double is an integer multiple of the least
  subnormal number \<open>1 / 2 ^ 1074\<close>: the magnitude is scaled by \<open>2 ^ 1074\<close> and rounded
  to an integer multiple of \<open>2 ^ s\<close>, where the shift \<open>s\<close> leaves 53 significant bits
  (\<open>s = 0\<close> for the subnormal numbers and the first binade of the normal ones). A rounded
  magnitude of \<open>2 ^ 1024\<close> or more is an overflow to infinity.
\<close>

definition round_half_even :: "real \<Rightarrow> int" where
  "round_half_even x =
     (let f = \<lfloor>x\<rfloor>; d = x - of_int f
      in if d < 1 / 2 then f else if 1 / 2 < d then f + 1 else if even f then f else f + 1)"

definition denorm :: real where
  "denorm = 2 ^ 1074"

definition binade_shift :: "real \<Rightarrow> nat" where
  "binade_shift a = nat (bitlen \<lfloor>a * denorm\<rfloor> - 53)"

definition round_mag :: "real \<Rightarrow> real" where
  "round_mag a =
     of_int (round_half_even (a * denorm / 2 ^ binade_shift a)) * 2 ^ binade_shift a / denorm"

definition round_double :: "bool \<Rightarrow> real \<Rightarrow> double" where
  "round_double sg a = (let m = round_mag a in if 2 ^ 1024 \<le> m then Infinity sg else Fin sg m)"

text \<open>The real number a finite double stands for.\<close>

fun number_value :: "double \<Rightarrow> real" where
  "number_value (Fin sg m) = (if sg then - m else m)"
| "number_value (Infinity sg) = 0"
| "number_value NaN = 0"

text \<open>
  The arithmetic of the source: the exact result, rounded. A sum that is exactly zero is
  \<open>-0\<close> when both operands are negative (two \<open>-0\<close>) and \<open>+0\<close> otherwise; the sign of a
  product or a quotient is the exclusive or of the signs.
\<close>

fun double_add :: "double \<Rightarrow> double \<Rightarrow> double" where
  "double_add (Fin s1 m1) (Fin s2 m2) =
     (let v = number_value (Fin s1 m1) + number_value (Fin s2 m2)
      in if v = 0 then Fin (s1 \<and> s2) 0 else round_double (v < 0) \<bar>v\<bar>)"
| "double_add (Infinity s1) (Infinity s2) = (if s1 = s2 then Infinity s1 else NaN)"
| "double_add (Infinity s1) (Fin s2 m2) = Infinity s1"
| "double_add (Fin s1 m1) (Infinity s2) = Infinity s2"
| "double_add NaN y = NaN"
| "double_add x NaN = NaN"

fun double_neg :: "double \<Rightarrow> double" where
  "double_neg (Fin sg m) = Fin (\<not> sg) m"
| "double_neg (Infinity sg) = Infinity (\<not> sg)"
| "double_neg NaN = NaN"

fun double_mul :: "double \<Rightarrow> double \<Rightarrow> double" where
  "double_mul (Fin s1 m1) (Fin s2 m2) = round_double (s1 \<noteq> s2) (m1 * m2)"
| "double_mul (Infinity s1) (Infinity s2) = Infinity (s1 \<noteq> s2)"
| "double_mul (Infinity s1) (Fin s2 m2) = (if m2 = 0 then NaN else Infinity (s1 \<noteq> s2))"
| "double_mul (Fin s1 m1) (Infinity s2) = (if m1 = 0 then NaN else Infinity (s1 \<noteq> s2))"
| "double_mul NaN y = NaN"
| "double_mul x NaN = NaN"

fun double_div :: "double \<Rightarrow> double \<Rightarrow> double" where
  "double_div (Fin s1 m1) (Fin s2 m2) =
     (if m2 = 0 then (if m1 = 0 then NaN else Infinity (s1 \<noteq> s2))
      else round_double (s1 \<noteq> s2) (m1 / m2))"
| "double_div (Infinity s1) (Infinity s2) = NaN"
| "double_div (Infinity s1) (Fin s2 m2) = Infinity (s1 \<noteq> s2)"
| "double_div (Fin s1 m1) (Infinity s2) = Fin (s1 \<noteq> s2) 0"
| "double_div NaN y = NaN"
| "double_div x NaN = NaN"

text \<open>\<^verbatim>\<open>===\<close> and \<^verbatim>\<open><\<close> on numbers: \<^verbatim>\<open>NaN\<close> compares false, \<open>+0\<close> and \<open>-0\<close> are equal.\<close>

fun strict_eq :: "double \<Rightarrow> double \<Rightarrow> bool" where
  "strict_eq (Fin s1 m1) (Fin s2 m2) = (number_value (Fin s1 m1) = number_value (Fin s2 m2))"
| "strict_eq (Infinity s1) (Infinity s2) = (s1 = s2)"
| "strict_eq x y = False"

fun double_less :: "double \<Rightarrow> double \<Rightarrow> bool" where
  "double_less (Fin s1 m1) (Fin s2 m2) = (number_value (Fin s1 m1) < number_value (Fin s2 m2))"
| "double_less (Fin s1 m1) (Infinity s2) = (\<not> s2)"
| "double_less (Infinity s1) (Fin s2 m2) = s1"
| "double_less (Infinity s1) (Infinity s2) = (s1 \<and> \<not> s2)"
| "double_less x y = False"

text \<open>
  The operators of the source on doubles: \<open>0\<close>, \<open>1\<close>, \<open>+\<close>, binary and unary \<open>-\<close>, \<open>*\<close>,
  \<open>/\<close>, \<open><\<close>. The other literals of the source, 2 and 4, are written \<open>Fin False 2\<close>
  and \<open>Fin False 4\<close>.
\<close>

instantiation double :: "{zero, one, plus, minus, uminus, times, inverse, ord}"
begin

definition zero_double :: double where
  "zero_double = Fin False 0"

definition one_double :: double where
  "one_double = Fin False 1"

definition plus_double :: "double \<Rightarrow> double \<Rightarrow> double" where
  "plus_double x y = double_add x y"

definition uminus_double :: "double \<Rightarrow> double" where
  "uminus_double x = double_neg x"

definition minus_double :: "double \<Rightarrow> double \<Rightarrow> double" where
  "minus_double x y = double_add x (double_neg y)"

definition times_double :: "double \<Rightarrow> double \<Rightarrow> double" where
  "times_double x y = double_mul x y"

definition divide_double :: "double \<Rightarrow> double \<Rightarrow> double" where
  "divide_double x y = double_div x y"

definition inverse_double :: "double \<Rightarrow> double" where
  "inverse_double x = double_div (Fin False 1) x"

definition less_double :: "double \<Rightarrow> double \<Rightarrow> bool" where
  "less_double x y = double_less x y"

definition less_eq_double :: "double \<Rightarrow> double \<Rightarrow> bool" where
  "less_eq_double x y = (double_less x y \<or> strict_eq x y)"

instance ..

end

text \<open>
  What is a double among the values of the type: a finite magnitude is non-negative,
  below \<open>2 ^ 1024\<close> and left unchanged by rounding. \<^verbatim>\<open>Number.isFinite\<close>. Two numbers are
  the same number when they are equal or both are zeros.
\<close>

fun is_double :: "double \<Rightarrow> bool" where
  "is_double (Fin sg m) = (0 \<le> m \<and> m < 2 ^ 1024 \<and> round_mag m = m)"
| "is_double (Infinity sg) = True"
| "is_double NaN = True"

fun is_finite :: "double \<Rightarrow> bool" where
  "is_finite (Fin sg m) = True"
| "is_finite (Infinity sg) = False"
| "is_finite NaN = False"

definition same_number :: "double \<Rightarrow> double \<Rightarrow> bool" where
  "same_number a b = (a = b \<or> (strict_eq a 0 \<and> strict_eq b 0))"

definition nonneg_double :: "double \<Rightarrow> bool" where
  "nonneg_double t = (t = Infinity False \<or> (\<exists>m. t = Fin False m \<and> 0 \<le> m \<and> round_mag m = m))"

text \<open>
  \<^verbatim>\<open>Math.exp\<close>, \<^verbatim>\<open>Math.cos\<close> and \<^verbatim>\<open>Math.sin\<close>. ECMAScript fixes their values at
  \<^verbatim>\<open>NaN\<close>, at the infinities and at the zeros, and leaves the others to the
  implementation, as approximations; here they are the real functions, rounded to the
  nearest double.
\<close>

definition Math_exp :: "double \<Rightarrow> double" where
  "Math_exp x =
     (case x of
        NaN \<Rightarrow> NaN
      | Infinity sg \<Rightarrow> (if sg then 0 else Infinity False)
      | Fin sg m \<Rightarrow> round_double False (exp (number_value x)))"

definition Math_cos :: "double \<Rightarrow> double" where
  "Math_cos x =
     (case x of
        NaN \<Rightarrow> NaN
      | Infinity sg \<Rightarrow> NaN
      | Fin sg m \<Rightarrow> round_double (cos (number_value x) < 0) \<bar>cos (number_value x)\<bar>)"

definition Math_sin :: "double \<Rightarrow> double" where
  "Math_sin x =
     (case x of
        NaN \<Rightarrow> NaN
      | Infinity sg \<Rightarrow> NaN
      | Fin sg m \<Rightarrow>
          if m = 0 then x
          else round_double (sin (number_value x) < 0) \<bar>sin (number_value x)\<bar>)"

subsection \<open>The source over doubles\<close>

definition H_BAR_d :: double where
  "H_BAR_d = 1"

definition MASS_d :: double where
  "MASS_d = 1"

record dcomplex =
  re_d :: double
  im_d :: double

definition complex_d :: "double \<Rightarrow> double \<Rightarrow> dcomplex" where
  "complex_d r i = \<lparr>re_d = r, im_d = i\<rparr>"

definition add_d :: "dcomplex \<Rightarrow> dcomplex \<Rightarrow> dcomplex" where
  "add_d a b = complex_d (re_d a + re_d b) (im_d a + im_d b)"

definition multiply_d :: "dcomplex \<Rightarrow> dcomplex \<Rightarrow> dcomplex" where
  "multiply_d a b =
     complex_d (re_d a * re_d b - im_d a * im_d b) (re_d a * im_d b + im_d a * re_d b)"

definition divide_d :: "dcomplex \<Rightarrow> dcomplex \<Rightarrow> dcomplex" where
  "divide_d a b =
     (let denominator = re_d b * re_d b + im_d b * im_d b
      in if strict_eq denominator 0 then complex_d 0 0
         else complex_d ((re_d a * re_d b + im_d a * im_d b) / denominator)
                        ((im_d a * re_d b - re_d a * im_d b) / denominator))"

record packet_params_d =
  centerX_d :: double
  centerY_d :: double
  width_d :: double
  momentumX_d :: double
  momentumY_d :: double

definition gaussianPacket_d :: "double \<Rightarrow> double \<Rightarrow> packet_params_d \<Rightarrow> dcomplex" where
  "gaussianPacket_d x y params =
     (let widthSq = width_d params * width_d params;
          dx = x - centerX_d params;
          dy = y - centerY_d params;
          magnitude = Math_exp (- (dx * dx + dy * dy) / (Fin False 4 * widthSq));
          phaseAngle = (momentumX_d params * dx + momentumY_d params * dy) / H_BAR_d;
          phase = complex_d (Math_cos phaseAngle) (Math_sin phaseAngle)
      in multiply_d (complex_d magnitude 0) phase)"

definition gaussianPacketGradient_d ::
  "double \<Rightarrow> double \<Rightarrow> packet_params_d \<Rightarrow> dcomplex \<times> dcomplex" where
  "gaussianPacketGradient_d x y params =
     (let widthSq = width_d params * width_d params;
          psi = gaussianPacket_d x y params;
          d_dx_term = complex_d (- (x - centerX_d params) / (Fin False 2 * widthSq))
                        (momentumX_d params / H_BAR_d);
          d_dy_term = complex_d (- (y - centerY_d params) / (Fin False 2 * widthSq))
                        (momentumY_d params / H_BAR_d);
          dPsi_dx = multiply_d psi d_dx_term;
          dPsi_dy = multiply_d psi d_dy_term
      in (dPsi_dx, dPsi_dy))"

record position_d =
  pos_x_d :: double
  pos_y_d :: double

record sample_d =
  sample_t_d :: double
  sample_x_d :: double
  sample_y_d :: double

text \<open>
  The configuration, by value. The position object that the loop updates is the copy
  \<^verbatim>\<open>{ ...initialPosition }\<close>, an object of the run's own (theorem \<open>runSimulation_frame\<close>
  of the first embedding is about the store); here it is a record that the loop passes on.
\<close>

record config_d =
  initialPosition_d :: position_d
  slit1_d :: packet_params_d
  slit2_d :: packet_params_d
  dt_d :: double
  steps_d :: int

function simulation_loop_d ::
  "config_d \<Rightarrow> int \<Rightarrow> double \<Rightarrow> position_d \<Rightarrow> sample_d list \<Rightarrow> sample_d list" where
  "simulation_loop_d cfg i currentTime currentPosition trajectory =
     (if i < steps_d cfg then
        let x = pos_x_d currentPosition;
            y = pos_y_d currentPosition;
            psi1 = gaussianPacket_d x y (slit1_d cfg);
            psi2 = gaussianPacket_d x y (slit2_d cfg);
            totalPsi = add_d psi1 psi2;
            grad1 = gaussianPacketGradient_d x y (slit1_d cfg);
            grad2 = gaussianPacketGradient_d x y (slit2_d cfg);
            totalGradPsi = (add_d (fst grad1) (fst grad2), add_d (snd grad1) (snd grad2));
            velocityTermX = divide_d (fst totalGradPsi) totalPsi;
            velocityTermY = divide_d (snd totalGradPsi) totalPsi;
            velocityX = (H_BAR_d / MASS_d) * im_d velocityTermX;
            velocityY = (H_BAR_d / MASS_d) * im_d velocityTermY;
            currentPosition1 = currentPosition
              \<lparr>pos_x_d := pos_x_d currentPosition + velocityX * dt_d cfg\<rparr>;
            currentPosition2 = currentPosition1
              \<lparr>pos_y_d := pos_y_d currentPosition1 + velocityY * dt_d cfg\<rparr>;
            currentTime' = currentTime + dt_d cfg;
            trajectory' = trajectory @
              [\<lparr>sample_t_d = currentTime',
                sample_x_d = pos_x_d currentPosition2,
                sample_y_d = pos_y_d currentPosition2\<rparr>]
        in simulation_loop_d cfg (i + 1) currentTime' currentPosition2 trajectory'
      else trajectory)"
  by pat_completeness auto

termination
  by (relation "measure (\<lambda>(cfg, i, currentTime, currentPosition, trajectory).
        nat (steps_d cfg - i))") auto

declare simulation_loop_d.simps [simp del]

definition runSimulation_d :: "config_d \<Rightarrow> sample_d list" where
  "runSimulation_d cfg =
     (let currentTime = 0;
          currentPosition = initialPosition_d cfg;
          trajectory = [\<lparr>sample_t_d = currentTime,
                         sample_x_d = pos_x_d currentPosition,
                         sample_y_d = pos_y_d currentPosition\<rparr>]
      in simulation_loop_d cfg 0 currentTime currentPosition trajectory)"

text \<open>
  One iteration of the loop body on a trajectory entry, and the entry of a time and a
  position: the terms in which the lemmas about the loop are stated.
\<close>

definition step_d :: "config_d \<Rightarrow> sample_d \<Rightarrow> sample_d" where
  "step_d cfg e =
     (let x = sample_x_d e;
          y = sample_y_d e;
          totalPsi = add_d (gaussianPacket_d x y (slit1_d cfg)) (gaussianPacket_d x y (slit2_d cfg));
          totalGrad_x = add_d (fst (gaussianPacketGradient_d x y (slit1_d cfg)))
                              (fst (gaussianPacketGradient_d x y (slit2_d cfg)));
          totalGrad_y = add_d (snd (gaussianPacketGradient_d x y (slit1_d cfg)))
                              (snd (gaussianPacketGradient_d x y (slit2_d cfg)))
      in \<lparr>sample_t_d = sample_t_d e + dt_d cfg,
          sample_x_d = x + (H_BAR_d / MASS_d) * im_d (divide_d totalGrad_x totalPsi) * dt_d cfg,
          sample_y_d = y + (H_BAR_d / MASS_d) * im_d (divide_d totalGrad_y totalPsi) * dt_d cfg\<rparr>)"

definition sample_of :: "double \<Rightarrow> position_d \<Rightarrow> sample_d" where
  "sample_of ct p = \<lparr>sample_t_d = ct, sample_x_d = pos_x_d p, sample_y_d = pos_y_d p\<rparr>"

text \<open>The valid configuration of the specification, with the comparisons of doubles.\<close>

definition valid_config_d :: "config_d \<Rightarrow> bool" where
  "valid_config_d cfg =
     (0 < width_d (slit1_d cfg) \<and> 0 < width_d (slit2_d cfg) \<and> 0 < dt_d cfg \<and> 0 \<le> steps_d cfg)"

subsection \<open>Inputs in double arithmetic\<close>

text \<open>
  The doubles \<^verbatim>\<open>0.1\<close>, \<^verbatim>\<open>0.2\<close>, \<^verbatim>\<open>0.30000000000000004\<close> and
  \<^verbatim>\<open>0.10000000000000003\<close>, and the example of the source with \<^verbatim>\<open>dt = 0.1\<close> and three
  steps.
\<close>

definition tenth :: double where
  "tenth = Fin False (7205759403792794 / 2 ^ 56)"

definition fifth :: double where
  "fifth = Fin False (7205759403792794 / 2 ^ 55)"

definition three_tenths_up :: double where
  "three_tenths_up = Fin False (5404319552844596 / 2 ^ 54)"

definition tenth_up :: double where
  "tenth_up = Fin False (7205759403792796 / 2 ^ 56)"

definition tenth_config :: config_d where
  "tenth_config =
     \<lparr>initialPosition_d = \<lparr>pos_x_d = Fin True (1 / 2), pos_y_d = Fin True 5\<rparr>,
      slit1_d = \<lparr>centerX_d = 0, centerY_d = Fin False (3 / 2), width_d = 1,
                 momentumX_d = 0, momentumY_d = Fin False 5\<rparr>,
      slit2_d = \<lparr>centerX_d = 0, centerY_d = Fin True (3 / 2), width_d = 1,
                 momentumX_d = 0, momentumY_d = Fin False 5\<rparr>,
      dt_d = tenth, steps_d = 3\<rparr>"

text \<open>
  The example of the source with the particle at the origin, the slits moved to
  \<open>y = 100\<close> and \<open>y = - 100\<close>, \<^verbatim>\<open>dt = 0.02\<close> and one step: the magnitude of both packets
  underflows to 0 at the particle.
\<close>

definition far_config :: config_d where
  "far_config =
     \<lparr>initialPosition_d = \<lparr>pos_x_d = 0, pos_y_d = 0\<rparr>,
      slit1_d = \<lparr>centerX_d = 0, centerY_d = Fin False 100, width_d = 1,
                 momentumX_d = 0, momentumY_d = Fin False 5\<rparr>,
      slit2_d = \<lparr>centerX_d = 0, centerY_d = Fin True 100, width_d = 1,
                 momentumX_d = 0, momentumY_d = Fin False 5\<rparr>,
      dt_d = Fin False (5764607523034235 / 2 ^ 58), steps_d = 1\<rparr>"

section \<open>The loop\<close>

lemma simulation_loop_exit:
  "\<not> i < steps cfg \<Longrightarrow> simulation_loop cfg cp i ct s traj = (s, traj)"
  by (simp add: simulation_loop.simps)

lemma simulation_loop_step:
  assumes "i < steps cfg"
  shows "simulation_loop cfg cp i ct s traj =
    simulation_loop cfg cp (i + 1) (ct + dt cfg)
      (moved s cp (spec_step (packets s (slit1 cfg)) (packets s (slit2 cfg)) (dt cfg)
         (current_sample s cp ct)))
      (traj @ [spec_step (packets s (slit1 cfg)) (packets s (slit2 cfg)) (dt cfg)
         (current_sample s cp ct)])"
  using assms
  by (subst simulation_loop.simps)
     (simp add: Let_def spec_step_def spec_velocity_def current_sample_def moved_def)

lemma packets_moved [simp]: "packets (moved s p e) = packets s"
  by (simp add: moved_def)

lemma next_addr_moved [simp]: "next_addr (moved s p e) = next_addr s"
  by (simp add: moved_def)

lemma points_moved_other: "a \<noteq> p \<Longrightarrow> points (moved s p e) a = points s a"
  by (simp add: moved_def)

lemma current_sample_moved: "current_sample (moved s p e) p (sample_t e) = e"
  by (simp add: moved_def current_sample_def)

lemma sample_t_spec_step [simp]: "sample_t (spec_step p1 p2 h e) = sample_t e + h"
  by (simp add: spec_step_def)

lemma sample_t_current_sample [simp]: "sample_t (current_sample s p ct) = ct"
  by (simp add: current_sample_def)

text \<open>
  The trajectory of the loop: the entries it was given, then the iterates of the update
  on the current sample, one for each remaining value of the counter.
\<close>

lemma simulation_loop_trace:
  "snd (simulation_loop cfg cp i ct s traj) =
     traj @ map (\<lambda>k. (spec_step (packets s (slit1 cfg)) (packets s (slit2 cfg)) (dt cfg) ^^ Suc k)
                      (current_sample s cp ct))
              [0..<nat (steps cfg - i)]"
proof (induction "nat (steps cfg - i)" arbitrary: i ct s traj)
  case 0
  then have "\<not> i < steps cfg" by simp
  with 0 show ?case by (simp add: simulation_loop_exit)
next
  case (Suc n)
  let ?f = "spec_step (packets s (slit1 cfg)) (packets s (slit2 cfg)) (dt cfg)"
  let ?e = "current_sample s cp ct"
  from Suc.hyps(2) have lt: "i < steps cfg" and n: "n = nat (steps cfg - (i + 1))"
    by simp_all
  have e': "current_sample (moved s cp (?f ?e)) cp (ct + dt cfg) = ?f ?e"
    using current_sample_moved [of s cp "?f ?e"] by simp
  have "snd (simulation_loop cfg cp i ct s traj) =
      (traj @ [?f ?e]) @ map (\<lambda>k. (?f ^^ Suc k) (?f ?e)) [0..<n]"
    using Suc.hyps(1) [OF n, of "ct + dt cfg" "moved s cp (?f ?e)" "traj @ [?f ?e]"]
    by (simp add: simulation_loop_step [OF lt] e' n)
  also have "\<dots> = traj @ map (\<lambda>k. (?f ^^ Suc k) ?e) [0..<Suc n]"
    by (simp add: map_upt_Suc funpow_swap1 del: upt_Suc)
  finally show ?case
    using Suc.hyps(2) by simp
qed

text \<open>The loop writes to the object at \<open>currentPosition\<close> and to nothing else.\<close>

lemma simulation_loop_frame:
  "packets (fst (simulation_loop cfg cp i ct s traj)) = packets s \<and>
   next_addr (fst (simulation_loop cfg cp i ct s traj)) = next_addr s \<and>
   (\<forall>a. a \<noteq> cp \<longrightarrow> points (fst (simulation_loop cfg cp i ct s traj)) a = points s a)"
proof (induction "nat (steps cfg - i)" arbitrary: i ct s traj)
  case 0
  then have "\<not> i < steps cfg" by simp
  then show ?case by (simp add: simulation_loop_exit)
next
  case (Suc n)
  from Suc.hyps(2) have lt: "i < steps cfg" and n: "n = nat (steps cfg - (i + 1))"
    by simp_all
  show ?case
    using Suc.hyps(1) [OF n]
    by (simp add: simulation_loop_step [OF lt] points_moved_other)
qed

section \<open>The run\<close>

lemma current_sample_spread_copy:
  "current_sample (snd (spread_copy s (initialPosition cfg)))
     (fst (spread_copy s (initialPosition cfg))) 0 = initial_sample s cfg"
  by (simp add: spread_copy_def current_sample_def initial_sample_def)

lemma packets_spread_copy [simp]: "packets (snd (spread_copy s p)) = packets s"
  by (simp add: spread_copy_def)

lemma runSimulation_unfold:
  "runSimulation s cfg =
     simulation_loop cfg (fst (spread_copy s (initialPosition cfg))) 0 0
       (snd (spread_copy s (initialPosition cfg))) [initial_sample s cfg]"
  by (simp add: runSimulation_def Let_def split_beta
      current_sample_spread_copy [unfolded current_sample_def])

text \<open>
  The whole trajectory: entry \<open>k\<close> is the \<open>k\<close>-th iterate of the update on the initial
  sample, for \<open>k\<close> from 0 to \<open>steps\<close> (to 0 when \<open>steps\<close> is negative).
\<close>

lemma trajectory_of_trace:
  "trajectory_of s cfg =
     map (\<lambda>k. (spec_step (packets s (slit1 cfg)) (packets s (slit2 cfg)) (dt cfg) ^^ k)
               (initial_sample s cfg))
       [0..<Suc (nat (steps cfg))]"
proof -
  let ?f = "spec_step (packets s (slit1 cfg)) (packets s (slit2 cfg)) (dt cfg)"
  have "trajectory_of s cfg =
      [initial_sample s cfg] @ map (\<lambda>k. (?f ^^ Suc k) (initial_sample s cfg)) [0..<nat (steps cfg)]"
    by (simp add: trajectory_of_def runSimulation_unfold simulation_loop_trace
        current_sample_spread_copy)
  also have "\<dots> = map (\<lambda>k. (?f ^^ k) (initial_sample s cfg)) [0..<Suc (nat (steps cfg))]"
    by (simp add: map_upt_Suc del: upt_Suc funpow.simps)
  finally show ?thesis .
qed

lemma length_trajectory_of: "length (trajectory_of s cfg) = Suc (nat (steps cfg))"
  by (simp add: trajectory_of_trace)

lemma trajectory_of_first: "trajectory_of s cfg ! 0 = initial_sample s cfg"
  by (simp add: trajectory_of_trace nth_map_upt del: upt_Suc)

lemma trajectory_of_next:
  assumes "int k < steps cfg"
  shows "trajectory_of s cfg ! Suc k =
    spec_step (packets s (slit1 cfg)) (packets s (slit2 cfg)) (dt cfg) (trajectory_of s cfg ! k)"
proof -
  from assms have "Suc k < Suc (nat (steps cfg))" and "k < Suc (nat (steps cfg))"
    by linarith+
  then show ?thesis
    by (simp add: trajectory_of_trace nth_map_upt del: upt_Suc)
qed

section \<open>Length and first entry of the trajectory\<close>

text \<open>
  Claim C2. For every valid configuration the trajectory returned by \<^verbatim>\<open>runSimulation\<close>
  has exactly \<open>steps + 1\<close> entries, and for \<open>steps = 0\<close> it is the initial sample alone,
  whatever the slit parameters are. Of the validity conditions only \<open>0 \<le> steps\<close> is
  needed.
\<close>

theorem runSimulation_length:
  assumes "0 \<le> steps cfg"
  shows "int (length (snd (runSimulation s cfg))) = steps cfg + 1 \<and>
    (steps cfg = 0 \<longrightarrow>
       snd (runSimulation s cfg) =
         [\<lparr>sample_t = 0,
           sample_x = pos_x (points s (initialPosition cfg)),
           sample_y = pos_y (points s (initialPosition cfg))\<rparr>])"
proof -
  have "int (length (trajectory_of s cfg)) = steps cfg + 1"
    using assms by (simp add: length_trajectory_of)
  moreover have "trajectory_of s cfg = [initial_sample s cfg]" if "steps cfg = 0"
    using that by (simp add: trajectory_of_trace)
  ultimately show ?thesis
    by (simp add: trajectory_of_def initial_sample_def)
qed

theorem runSimulation_length_witness:
  "int (length (snd (runSimulation example_store example_config))) = 501 \<and>
   snd (runSimulation example_store (example_config\<lparr>steps := 0\<rparr>)) =
     [\<lparr>sample_t = 0, sample_x = - 1 / 2, sample_y = - 5\<rparr>]"
  using runSimulation_length [of example_config example_store]
    runSimulation_length [of "example_config\<lparr>steps := 0\<rparr>" example_store]
  by (simp add: example_config_def example_store_def)

text \<open>
  Claim C3. The first entry of the trajectory is the configured initial position at time
  0. It holds for every configuration, valid or not, and the trajectory is never empty.
\<close>

theorem runSimulation_first_entry:
  "snd (runSimulation s cfg) \<noteq> [] \<and>
   snd (runSimulation s cfg) ! 0 =
     \<lparr>sample_t = 0,
      sample_x = pos_x (points s (initialPosition cfg)),
      sample_y = pos_y (points s (initialPosition cfg))\<rparr>"
proof -
  have "length (trajectory_of s cfg) \<noteq> 0"
    by (simp add: length_trajectory_of)
  then have "trajectory_of s cfg \<noteq> []"
    by simp
  then show ?thesis
    using trajectory_of_first [of s cfg]
    by (simp add: trajectory_of_def initial_sample_def)
qed

theorem runSimulation_first_entry_witness:
  "valid_config example_store example_config \<and>
   snd (runSimulation example_store example_config) ! 0 =
     \<lparr>sample_t = 0, sample_x = - 1 / 2, sample_y = - 5\<rparr>"
  using runSimulation_first_entry [of example_store example_config]
  by (simp add: example_config_def example_store_def valid_config_def)

text \<open>
  Claim C10. With a negative step count \<^verbatim>\<open>runSimulation\<close> raises nothing (the source
  has no \<^verbatim>\<open>throw\<close>; the model is a total function) and returns the initial sample
  alone: the loop body is never entered, so the store is the one left by the copy of the
  initial position.
\<close>

theorem runSimulation_negative_steps:
  assumes "steps cfg < 0"
  shows "snd (runSimulation s cfg) =
      [\<lparr>sample_t = 0,
        sample_x = pos_x (points s (initialPosition cfg)),
        sample_y = pos_y (points s (initialPosition cfg))\<rparr>] \<and>
    fst (runSimulation s cfg) = snd (spread_copy s (initialPosition cfg))"
proof -
  from assms have "\<not> 0 < steps cfg"
    by simp
  then show ?thesis
    by (simp add: runSimulation_unfold simulation_loop_exit initial_sample_def)
qed

theorem runSimulation_negative_steps_witness:
  "steps (example_config\<lparr>steps := - 3\<rparr>) < 0 \<and>
   snd (runSimulation example_store (example_config\<lparr>steps := - 3\<rparr>)) =
     [\<lparr>sample_t = 0, sample_x = - 1 / 2, sample_y = - 5\<rparr>]"
  using runSimulation_negative_steps [of "example_config\<lparr>steps := - 3\<rparr>" example_store]
  by (simp add: example_config_def example_store_def)

section \<open>Complex division in exact arithmetic\<close>

lemma denominator_zero_iff: "re b * re b + im b * im b = 0 \<longleftrightarrow> re b = 0 \<and> im b = 0"
  by simp


section \<open>The Gaussian packet and its gradient\<close>

text \<open>
  Claim C6. For a packet of width \<open>\<sigma> > 0\<close>, \<^verbatim>\<open>gaussianPacket(x, y, params)\<close> is the
  product \<^verbatim>\<open>multiply\<close> of \<open>(exp (- ((x - cx)\<^sup>2 + (y - cy)\<^sup>2) / (4 \<sigma>\<^sup>2)), 0)\<close> and
  \<open>(cos \<theta>, sin \<theta>)\<close> with \<open>\<theta> = (px (x - cx) + py (y - cy)) / \<hbar>\<close>, and
  \<^verbatim>\<open>gaussianPacketGradient(x, y, params)\<close> is the pair of the products of that value with
  \<open>(- (x - cx) / (2 \<sigma>\<^sup>2), px / \<hbar>)\<close> and with \<open>(- (y - cy) / (2 \<sigma>\<^sup>2), py / \<hbar>)\<close>.
\<close>

theorem gaussianPacket_formula:
  assumes "0 < width params"
  shows "gaussianPacket x y params =
      multiply
        \<lparr>re = exp (- ((x - centerX params)\<^sup>2 + (y - centerY params)\<^sup>2) / (4 * (width params)\<^sup>2)),
         im = 0\<rparr>
        \<lparr>re = cos ((momentumX params * (x - centerX params) +
                    momentumY params * (y - centerY params)) / H_BAR),
         im = sin ((momentumX params * (x - centerX params) +
                    momentumY params * (y - centerY params)) / H_BAR)\<rparr> \<and>
    gaussianPacketGradient x y params =
      (multiply (gaussianPacket x y params)
         \<lparr>re = - (x - centerX params) / (2 * (width params)\<^sup>2), im = momentumX params / H_BAR\<rparr>,
       multiply (gaussianPacket x y params)
         \<lparr>re = - (y - centerY params) / (2 * (width params)\<^sup>2), im = momentumY params / H_BAR\<rparr>)"
  by (simp add: gaussianPacket_def gaussianPacketGradient_def Let_def complex_def power2_eq_square)

theorem gaussianPacket_formula_witness:
  "0 < width (packets example_store 1) \<and>
   gaussianPacket 0 (3 / 2) (packets example_store 1) = \<lparr>re = 1, im = 0\<rparr> \<and>
   gaussianPacketGradient 0 (3 / 2) (packets example_store 1) =
     (\<lparr>re = 0, im = 0\<rparr>, \<lparr>re = 0, im = 5\<rparr>)"
  using gaussianPacket_formula [of "packets example_store 1" 0 "3 / 2"]
  by (simp add: example_store_def multiply_def complex_def H_BAR_def)

section \<open>The configuration is left as it was\<close>

text \<open>
  Claim C9. A run leaves the objects of its configuration unchanged. The position object
  of \<^verbatim>\<open>config.initialPosition\<close> and every other position object allocated before the run
  hold their values afterwards, since the loop writes to the copy made by
  \<^verbatim>\<open>{ ...initialPosition }\<close> only; the packet objects of \<^verbatim>\<open>slit1\<close> and \<^verbatim>\<open>slit2\<close> are
  never written. \<^verbatim>\<open>dt\<close> and \<^verbatim>\<open>steps\<close> are numbers that the source reads once into
  constants, and no statement of the source assigns to a field of \<^verbatim>\<open>config\<close>: the
  configuration record is a value here. The configuration's position object is an
  allocated one (its address is below the next free address).
\<close>

theorem runSimulation_frame:
  assumes "initialPosition cfg < next_addr s"
  shows "points (fst (runSimulation s cfg)) (initialPosition cfg) = points s (initialPosition cfg) \<and>
    packets (fst (runSimulation s cfg)) (slit1 cfg) = packets s (slit1 cfg) \<and>
    packets (fst (runSimulation s cfg)) (slit2 cfg) = packets s (slit2 cfg) \<and>
    packets (fst (runSimulation s cfg)) = packets s \<and>
    (\<forall>a. a < next_addr s \<longrightarrow> points (fst (runSimulation s cfg)) a = points s a)"
proof -
  let ?cp = "fst (spread_copy s (initialPosition cfg))"
  let ?s0 = "snd (spread_copy s (initialPosition cfg))"
  have cp: "?cp = next_addr s"
    by (simp add: spread_copy_def)
  have s0: "points ?s0 a = points s a" if "a < next_addr s" for a
    using that by (simp add: spread_copy_def)
  have "points (fst (runSimulation s cfg)) a = points s a" if "a < next_addr s" for a
    using that simulation_loop_frame [of cfg ?cp 0 0 ?s0 "[initial_sample s cfg]"] s0 [OF that]
    by (simp add: runSimulation_unfold cp)
  moreover have "packets (fst (runSimulation s cfg)) = packets s"
    using simulation_loop_frame [of cfg ?cp 0 0 ?s0 "[initial_sample s cfg]"]
    by (simp add: runSimulation_unfold)
  ultimately show ?thesis
    using assms by simp
qed

theorem runSimulation_frame_witness:
  "initialPosition example_config < next_addr example_store \<and>
   points (fst (runSimulation example_store example_config)) 0 = \<lparr>pos_x = - 1 / 2, pos_y = - 5\<rparr> \<and>
   packets (fst (runSimulation example_store example_config)) 1 =
     \<lparr>centerX = 0, centerY = 3 / 2, width = 1, momentumX = 0, momentumY = 5\<rparr> \<and>
   packets (fst (runSimulation example_store example_config)) 2 =
     \<lparr>centerX = 0, centerY = - 3 / 2, width = 1, momentumX = 0, momentumY = 5\<rparr>"
  using runSimulation_frame [of example_config example_store]
  by (simp add: example_config_def example_store_def)

section \<open>The symmetric two-slit case\<close>








section \<open>No validation of the configuration\<close>

text \<open>
  Claim C4, as stated, fails: \<^verbatim>\<open>runSimulation\<close> has no validation and no \<^verbatim>\<open>throw\<close>.
  For the example of the source with \<open>dt = - 1/50\<close> and two steps, where a validating run
  reports the configuration error, the code returns three entries, the last at time
  \<open>- 1/25\<close>.
\<close>

theorem runSimulation_validation_counterexample:
  "spec_validated_run example_store backward_config = Inl ConfigurationError \<and>
   length (snd (runSimulation example_store backward_config)) = 3 \<and>
   sample_t (snd (runSimulation example_store backward_config) ! 2) = - 1 / 25"
proof -
  have inv: "\<not> valid_config example_store backward_config"
    by (simp add: valid_config_def backward_config_def)
  have len: "length (trajectory_of example_store backward_config) = 3"
    by (simp add: length_trajectory_of backward_config_def)
  have t0: "sample_t (trajectory_of example_store backward_config ! 0) = 0"
    by (simp add: trajectory_of_first initial_sample_def)
  have "int 0 < steps backward_config" and "int 1 < steps backward_config"
    by (simp_all add: backward_config_def)
  from trajectory_of_next [OF this(1), of example_store]
    trajectory_of_next [OF this(2), of example_store]
  have "sample_t (trajectory_of example_store backward_config ! 2) = - 1 / 25"
    using t0 by (simp add: numeral_2_eq_2) (simp add: backward_config_def)
  with inv len show ?thesis
    by (simp add: spec_validated_run_def trajectory_of_def)
qed

text \<open>
  Claim C4, amended. \<^verbatim>\<open>runSimulation\<close> does not validate its configuration and reports
  no error. For a configuration with a non-positive width, a non-positive \<open>dt\<close> or a
  negative \<open>steps\<close> it returns a trajectory as for any other: the initial sample first,
  one entry more for each of the \<open>steps\<close> iterations (none when \<open>steps\<close> is negative),
  each at the time of the previous one plus \<open>dt\<close>. Validation is left to the caller.
\<close>

theorem runSimulation_no_validation:
  assumes "\<not> valid_config s cfg"
  shows "length (snd (runSimulation s cfg)) = Suc (nat (steps cfg)) \<and>
    snd (runSimulation s cfg) ! 0 =
      \<lparr>sample_t = 0,
       sample_x = pos_x (points s (initialPosition cfg)),
       sample_y = pos_y (points s (initialPosition cfg))\<rparr> \<and>
    (\<forall>k. int k < steps cfg \<longrightarrow>
       sample_t (snd (runSimulation s cfg) ! Suc k) =
         sample_t (snd (runSimulation s cfg) ! k) + dt cfg)"
proof -
  have "sample_t (trajectory_of s cfg ! Suc k) = sample_t (trajectory_of s cfg ! k) + dt cfg"
    if "int k < steps cfg" for k
    using trajectory_of_next [OF that, of s] by simp
  then show ?thesis
    using trajectory_of_first [of s cfg]
    by (simp add: trajectory_of_def [symmetric] length_trajectory_of initial_sample_def)
qed

theorem runSimulation_no_validation_witness:
  "\<not> valid_config example_store (example_config\<lparr>dt := 0\<rparr>) \<and>
   length (snd (runSimulation example_store (example_config\<lparr>dt := 0\<rparr>))) = 501 \<and>
   sample_t (snd (runSimulation example_store (example_config\<lparr>dt := 0\<rparr>)) ! 1) = 0"
proof -
  let ?cfg = "example_config\<lparr>dt := 0\<rparr>"
  have inv: "\<not> valid_config example_store ?cfg"
    by (simp add: valid_config_def)
  have k: "int 0 < steps ?cfg"
    by (simp add: example_config_def)
  from runSimulation_no_validation [OF inv]
  have len: "length (snd (runSimulation example_store ?cfg)) = Suc (nat (steps ?cfg))"
    and t0: "sample_t (snd (runSimulation example_store ?cfg) ! 0) = 0"
    and "sample_t (snd (runSimulation example_store ?cfg) ! Suc 0) =
           sample_t (snd (runSimulation example_store ?cfg) ! 0) + dt ?cfg"
    using k by simp_all
  with inv show ?thesis
    by (simp add: example_config_def)
qed

section \<open>Rounding\<close>

lemma denorm_pos [simp]: "0 < denorm"
  by (simp add: denorm_def del: power_numeral)

lemma denorm_nonzero [simp]: "denorm \<noteq> 0"
  using denorm_pos by arith

lemma denorm_nonneg [simp]: "0 \<le> denorm"
  using denorm_pos by arith

lemma denorm_split: "j \<le> 1074 \<Longrightarrow> denorm = 2 ^ j * 2 ^ (1074 - j)"
  by (simp add: denorm_def power_add [symmetric] del: power_numeral)

lemma round_half_even_of_int [simp]: "round_half_even (of_int k) = k"
  by (simp add: round_half_even_def Let_def)

lemma round_half_even_cases:
  "round_half_even x = \<lfloor>x\<rfloor> \<or> round_half_even x = \<lfloor>x\<rfloor> + 1"
  by (simp add: round_half_even_def Let_def)

lemma round_half_even_lower: "\<lfloor>x\<rfloor> \<le> round_half_even x"
  using round_half_even_cases [of x] by auto

lemma round_half_even_upper: "round_half_even x \<le> \<lfloor>x\<rfloor> + 1"
  using round_half_even_cases [of x] by auto

lemma round_half_even_less_half: "0 \<le> x \<Longrightarrow> x < 1 / 2 \<Longrightarrow> round_half_even x = 0"
proof -
  assume a: "0 \<le> x" "x < 1 / 2"
  then have "\<lfloor>x\<rfloor> = 0"
    by (simp add: floor_eq_iff)
  with a show ?thesis
    by (simp add: round_half_even_def Let_def)
qed

lemma round_half_even_mono:
  assumes "x \<le> y"
  shows "round_half_even x \<le> round_half_even y"
proof (cases "\<lfloor>x\<rfloor> = \<lfloor>y\<rfloor>")
  case True
  with assms show ?thesis
    by (auto simp: round_half_even_def Let_def)
next
  case False
  with assms have "\<lfloor>x\<rfloor> < \<lfloor>y\<rfloor>"
    using floor_mono [OF assms] by simp
  then have "\<lfloor>x\<rfloor> + 1 \<le> \<lfloor>y\<rfloor>"
    by simp
  with round_half_even_upper [of x] round_half_even_lower [of y] show ?thesis
    by linarith
qed

lemma round_mag_zero [simp]: "round_mag 0 = 0"
  using round_half_even_of_int [of 0] by (simp add: round_mag_def del: round_half_even_of_int)

lemma round_mag_tiny:
  assumes "0 \<le> a" and "a * denorm < 1 / 2"
  shows "round_mag a = 0"
proof -
  have nn: "0 \<le> a * denorm"
    using assms(1) by simp
  with assms(2) have f: "\<lfloor>a * denorm\<rfloor> = 0"
    by (simp add: floor_eq_iff)
  have "round_half_even (a * denorm) = 0"
    using nn assms(2) by (rule round_half_even_less_half)
  then show ?thesis
    by (simp add: round_mag_def binade_shift_def f)
qed

lemma bitlen_floor_binade:
  assumes "2 ^ n \<le> q" and "q < 2 ^ Suc n"
  shows "bitlen \<lfloor>q::real\<rfloor> = int n + 1"
proof -
  have lo: "(2::int) ^ n \<le> \<lfloor>q\<rfloor>"
    using assms(1) by (simp add: le_floor_iff)
  have hi: "\<lfloor>q\<rfloor> < (2::int) ^ Suc n"
    using assms(2) by (simp add: floor_less_iff)
  have "bitlen \<lfloor>q\<rfloor> \<le> int n + 1"
    using hi by (simp add: bitlen_le_iff_power nat_add_distrib)
  moreover have "int n + 1 \<le> bitlen \<lfloor>q\<rfloor>"
    using lo by (simp add: bitlen_ge_iff_power nat_add_distrib)
  ultimately show ?thesis
    by simp
qed

text \<open>Rounding in one binade, and below the first normal binade.\<close>

lemma round_mag_scaled:
  assumes "2 ^ 52 \<le> x" and "x < 2 ^ 53"
  shows "round_mag (x * 2 ^ s / denorm) = of_int (round_half_even x) * 2 ^ s / denorm"
proof -
  have q: "x * 2 ^ s / denorm * denorm = x * 2 ^ s"
    by simp
  have "2 ^ (52 + s) \<le> x * 2 ^ s"
    using assms(1) by (simp add: power_add del: power_numeral)
  moreover have "x * 2 ^ s < 2 ^ Suc (52 + s)"
    using assms(2) by (simp add: power_add del: power_numeral)
  ultimately have "bitlen \<lfloor>x * 2 ^ s\<rfloor> = int (52 + s) + 1"
    by (rule bitlen_floor_binade)
  then have s: "nat (bitlen \<lfloor>x * 2 ^ s\<rfloor> - 53) = s"
    by simp
  show ?thesis
    by (simp add: round_mag_def binade_shift_def q s del: power_numeral)
qed

lemma round_mag_small:
  assumes "x < 2 ^ 53"
  shows "round_mag (x / denorm) = of_int (round_half_even x) / denorm"
proof -
  have "\<lfloor>x\<rfloor> < (2::int) ^ 53"
    using assms by (simp add: floor_less_iff del: power_numeral)
  then have "bitlen \<lfloor>x\<rfloor> \<le> 53"
    by (simp add: bitlen_le_iff_power del: power_numeral)
  then have s: "nat (bitlen \<lfloor>x\<rfloor> - 53) = 0"
    by simp
  show ?thesis
    by (simp add: round_mag_def binade_shift_def s)
qed

lemma round_mag_binade:
  assumes "2 ^ 52 \<le> x" and "x < 2 ^ 53" and "j \<le> 1074"
  shows "round_mag (x / 2 ^ j) = of_int (round_half_even x) / 2 ^ j"
proof -
  have "x / 2 ^ j = x * 2 ^ (1074 - j) / denorm" for x :: real
    by (simp add: denorm_split [OF assms(3)] del: power_numeral)
  then show ?thesis
    using round_mag_scaled [OF assms(1,2), of "1074 - j"] by (simp del: power_numeral)
qed

text \<open>The doubles are the fixed points of rounding.\<close>

lemma rhe_pow: "round_half_even (2 ^ n) = 2 ^ n"
  using round_half_even_of_int [of "2 ^ n"] by (simp del: round_half_even_of_int)

lemma round_mag_fixed_top:
  "round_mag (2 ^ 53 * 2 ^ s / denorm) = 2 ^ 53 * 2 ^ s / denorm"
proof -
  have "(2::real) ^ 52 \<le> 2 ^ 52" and "(2::real) ^ 52 < 2 ^ 53"
    by (simp_all del: power_numeral)
  from round_mag_scaled [OF this, of "Suc s"]
  have "round_mag (2 ^ 52 * 2 ^ Suc s / denorm) = 2 ^ 52 * 2 ^ Suc s / denorm"
    by (simp only: rhe_pow of_int_power of_int_numeral)
  moreover have "(2::real) ^ 52 * 2 ^ Suc s = 2 ^ 53 * 2 ^ s"
    by simp
  ultimately show ?thesis
    by (simp only:)
qed

lemma round_mag_fixed_normal:
  assumes "2 ^ 52 \<le> k" and "k < 2 ^ 53"
  shows "round_mag (of_int k * 2 ^ s / denorm) = of_int k * 2 ^ s / denorm"
proof -
  have "(of_int (2 ^ 52) :: real) \<le> of_int k"
    using assms(1) by (simp only: of_int_le_iff)
  then have "(2::real) ^ 52 \<le> of_int k"
    by (simp only: of_int_power of_int_numeral)
  moreover have "(of_int k :: real) < of_int (2 ^ 53)"
    using assms(2) by (simp only: of_int_less_iff)
  then have "of_int k < (2::real) ^ 53"
    by (simp only: of_int_power of_int_numeral)
  ultimately show ?thesis
    using round_mag_scaled [of "of_int k" s] by (simp only: round_half_even_of_int)
qed

lemma round_mag_fixed_small:
  assumes "k < 2 ^ 53"
  shows "round_mag (of_int k / denorm) = of_int k / denorm"
proof -
  have "(of_int k :: real) < of_int (2 ^ 53)"
    using assms by (simp only: of_int_less_iff)
  then have "of_int k < (2::real) ^ 53"
    by (simp only: of_int_power of_int_numeral)
  then show ?thesis
    using round_mag_small [of "of_int k"] by (simp only: round_half_even_of_int)
qed

lemma round_mag_fixed:
  assumes "0 \<le> k" and "k \<le> 2 ^ 53" and "s = 0 \<or> 2 ^ 52 \<le> k"
  shows "round_mag (of_int k * 2 ^ s / denorm) = of_int k * 2 ^ s / denorm"
proof (cases "k = 2 ^ 53")
  case True
  then have "(of_int k :: real) = 2 ^ 53"
    by (simp only: of_int_power of_int_numeral)
  then show ?thesis
    by (simp only: round_mag_fixed_top)
next
  case False
  with assms(2) have lt: "k < 2 ^ 53"
    by (simp del: power_numeral)
  show ?thesis
  proof (cases "2 ^ 52 \<le> k")
    case True
    then show ?thesis
      using lt by (rule round_mag_fixed_normal)
  next
    case False
    with assms(3) have "s = 0"
      by blast
    then show ?thesis
      using round_mag_fixed_small [OF lt] by (simp del: power_numeral)
  qed
qed

lemma mantissa_bounds:
  assumes "0 \<le> a"
  shows "0 \<le> round_half_even (a * denorm / 2 ^ binade_shift a)"
    and "round_half_even (a * denorm / 2 ^ binade_shift a) \<le> 2 ^ 53"
    and "0 < binade_shift a \<Longrightarrow> 2 ^ 52 \<le> round_half_even (a * denorm / 2 ^ binade_shift a)"
proof -
  define q where "q = a * denorm"
  define s where "s = binade_shift a"
  define k where "k = round_half_even (q / 2 ^ s)"
  have q0: "0 \<le> q"
    using assms by (simp add: q_def)
  have sdef: "s = nat (bitlen \<lfloor>q\<rfloor> - 53)"
    by (simp add: s_def binade_shift_def q_def)
  have "0 \<le> k \<and> k \<le> 2 ^ 53 \<and> (0 < s \<longrightarrow> 2 ^ 52 \<le> k)"
  proof (cases "bitlen \<lfloor>q\<rfloor> \<le> 53")
    case True
    then have s0: "s = 0"
      by (simp add: sdef)
    from True have "\<lfloor>q\<rfloor> < 2 ^ 53"
      by (simp add: bitlen_le_iff_power del: power_numeral)
    then have "k \<le> 2 ^ 53"
      using round_half_even_upper [of q] by (simp add: k_def s0 del: power_numeral)
    moreover have "0 \<le> \<lfloor>q\<rfloor>"
      using q0 by simp
    then have "0 \<le> round_half_even q"
      using round_half_even_lower [of q] by (rule order_trans)
    then have "0 \<le> k"
      by (simp add: k_def s0)
    ultimately show ?thesis
      using s0 by simp
  next
    case False
    define L where "L = nat (bitlen \<lfloor>q\<rfloor>)"
    from False have L: "bitlen \<lfloor>q\<rfloor> = int L" "53 < L" and sL: "s = L - 53"
      by (simp_all add: L_def sdef nat_diff_distrib)
    have pos: "0 < \<lfloor>q\<rfloor>"
      using False bitlen_eq_zero_iff [of "\<lfloor>q\<rfloor>"] by (cases "0 < \<lfloor>q\<rfloor>") auto
    from bitlen_bounds [OF pos] have lo: "2 ^ (L - 1) \<le> \<lfloor>q\<rfloor>" and hi: "\<lfloor>q\<rfloor> < 2 ^ L"
      using L by (simp_all add: nat_diff_distrib)
    have lo': "(2::real) ^ (L - 1) \<le> q"
      using lo by (simp add: le_floor_iff)
    have hi': "q < (2::real) ^ L"
      using hi by (simp add: floor_less_iff)
    have "L - 1 = 52 + s" and "L = 53 + s"
      using L(2) by (simp_all add: sL)
    then have e1: "(2::real) ^ (L - 1) = 2 ^ 52 * 2 ^ s" and e2: "(2::real) ^ L = 2 ^ 53 * 2 ^ s"
      by (simp_all only: power_add)
    have p: "(0::real) < 2 ^ s"
      by simp
    have xlo: "(2::real) ^ 52 \<le> q / 2 ^ s"
      using lo' p by (simp only: e1 pos_le_divide_eq)
    have xhi: "q / 2 ^ s < (2::real) ^ 53"
      using hi' p by (simp only: e2 pos_divide_less_eq)
    have "(2::int) ^ 52 \<le> \<lfloor>q / 2 ^ s\<rfloor>"
      using xlo by (simp add: le_floor_iff del: power_numeral)
    then have klo: "2 ^ 52 \<le> k"
      using round_half_even_lower [of "q / 2 ^ s"] by (simp add: k_def del: power_numeral)
    have "\<lfloor>q / 2 ^ s\<rfloor> < (2::int) ^ 53"
      using xhi by (simp add: floor_less_iff del: power_numeral)
    then have khi: "k \<le> 2 ^ 53"
      using round_half_even_upper [of "q / 2 ^ s"] by (simp add: k_def del: power_numeral)
    have "(0::int) \<le> 2 ^ 52"
      by simp
    from this klo have "0 \<le> k"
      by (rule order_trans)
    with klo khi show ?thesis
      by simp
  qed
  then show "0 \<le> round_half_even (a * denorm / 2 ^ binade_shift a)"
    and "round_half_even (a * denorm / 2 ^ binade_shift a) \<le> 2 ^ 53"
    and "0 < binade_shift a \<Longrightarrow> 2 ^ 52 \<le> round_half_even (a * denorm / 2 ^ binade_shift a)"
    by (simp_all add: k_def q_def s_def del: power_numeral)
qed

lemma round_mag_shape:
  assumes "0 \<le> a"
  shows "\<exists>k s. round_mag a = of_int k * 2 ^ s / denorm \<and> 0 \<le> k \<and> k \<le> 2 ^ 53 \<and>
    (s = 0 \<or> 2 ^ 52 \<le> k)"
proof -
  let ?s = "binade_shift a"
  let ?k = "round_half_even (a * denorm / 2 ^ ?s)"
  have "round_mag a = of_int ?k * 2 ^ ?s / denorm"
    by (simp only: round_mag_def)
  moreover have "?s = 0 \<or> 2 ^ 52 \<le> ?k"
    using mantissa_bounds(3) [OF assms] by (cases "?s = 0") simp_all
  ultimately show ?thesis
    using mantissa_bounds(1,2) [OF assms] by blast
qed

lemma round_mag_idem:
  assumes "0 \<le> a"
  shows "round_mag (round_mag a) = round_mag a"
proof -
  from round_mag_shape [OF assms] obtain k s where
    "round_mag a = of_int k * 2 ^ s / denorm" "0 \<le> k" "k \<le> 2 ^ 53" "s = 0 \<or> 2 ^ 52 \<le> k"
    by blast
  then show ?thesis
    using round_mag_fixed [of k s] by (simp only:)
qed

lemma round_mag_nonneg:
  assumes "0 \<le> a"
  shows "0 \<le> round_mag a"
proof -
  from round_mag_shape [OF assms] obtain k s where
    "round_mag a = of_int k * 2 ^ s / denorm" "0 \<le> k"
    by blast
  then show ?thesis
    by simp
qed

lemma round_mag_dyadic:
  assumes "0 \<le> k" and "k < 2 ^ 53" and "j \<le> 1074"
  shows "round_mag (of_int k / 2 ^ j) = of_int k / 2 ^ j"
proof (cases "k = 0")
  case True
  then show ?thesis by simp
next
  case False
  with assms(1) have pos: "0 < k"
    by simp
  define i where "i = 1074 - j"
  have dj: "of_int k / 2 ^ j = (of_int k :: real) * 2 ^ i / denorm"
    by (simp add: denorm_split [OF assms(3)] i_def del: power_numeral)
  define L where "L = nat (bitlen k)"
  have L: "bitlen k = int L"
    by (simp add: L_def bitlen_nonneg)
  have "bitlen k \<le> 53"
    using assms(2) by (simp add: bitlen_le_iff_power del: power_numeral)
  then have L53: "L \<le> 53"
    by (simp add: L)
  have "bitlen k \<noteq> 0"
    using pos by (simp add: bitlen_eq_zero_iff)
  then have L1: "1 \<le> L"
    using L by simp
  have nL: "nat (int L - 1) = L - 1"
    by arith
  from bitlen_bounds [OF pos] have lo: "2 ^ (L - 1) \<le> k" and hi: "k < 2 ^ L"
    by (simp_all add: L nL del: power_numeral)
  define c where "c = 53 - L"
  show ?thesis
  proof (cases "c \<le> i")
    case True
    have "(2::int) ^ 52 = 2 ^ (L - 1) * 2 ^ c"
      using L1 L53 by (simp add: c_def power_add [symmetric] del: power_numeral)
    also have "\<dots> \<le> k * 2 ^ c"
      using lo by (simp del: power_numeral)
    finally have klo: "2 ^ 52 \<le> k * 2 ^ c" .
    have "k * 2 ^ c < 2 ^ L * 2 ^ c"
      using hi by (simp del: power_numeral)
    also have "\<dots> = 2 ^ 53"
      using L53 by (simp add: c_def power_add [symmetric] del: power_numeral)
    finally have khi: "k * 2 ^ c < 2 ^ 53" .
    have "(of_int (k * 2 ^ c) :: real) * 2 ^ (i - c) = of_int k * 2 ^ i"
      using True by (simp add: power_add [symmetric] del: power_numeral)
    then show ?thesis
      using round_mag_fixed_normal [OF klo khi, of "i - c"] by (simp only: dj)
  next
    case False
    then have "L + i < 53"
      by (simp add: c_def)
    have "k * 2 ^ i < 2 ^ L * 2 ^ i"
      using hi by (simp del: power_numeral)
    also have "\<dots> = 2 ^ (L + i)"
      by (simp add: power_add)
    also have "\<dots> < 2 ^ 53"
      using \<open>L + i < 53\<close> by (simp del: power_numeral)
    finally have "k * 2 ^ i < 2 ^ 53" .
    from round_mag_fixed_small [OF this] show ?thesis
      by (simp add: dj del: power_numeral)
  qed
qed

lemma round_mag_one [simp]: "round_mag 1 = 1"
  using round_mag_dyadic [of 1 0] by simp

text \<open>Rounding is monotone, and at most doubles a magnitude of 1 or more.\<close>

lemma binade_shift_mono:
  assumes "0 \<le> a" and "a \<le> b"
  shows "binade_shift a \<le> binade_shift b"
proof -
  have "a * denorm \<le> b * denorm"
    using assms(2) by (simp add: mult_right_mono)
  then have "\<lfloor>a * denorm\<rfloor> \<le> \<lfloor>b * denorm\<rfloor>"
    by (rule floor_mono)
  then have "bitlen \<lfloor>a * denorm\<rfloor> \<le> bitlen \<lfloor>b * denorm\<rfloor>"
    by (simp add: bitlen_def floorlog_mono)
  then show ?thesis
    by (simp add: binade_shift_def)
qed

lemma round_mag_mono:
  assumes "0 \<le> a" and "a \<le> b"
  shows "round_mag a \<le> round_mag b"
proof -
  have b0: "0 \<le> b"
    using assms by simp
  let ?sa = "binade_shift a" and ?sb = "binade_shift b"
  let ?ka = "round_half_even (a * denorm / 2 ^ ?sa)"
  let ?kb = "round_half_even (b * denorm / 2 ^ ?sb)"
  have le: "?sa \<le> ?sb"
    by (rule binade_shift_mono [OF assms])
  have "real_of_int ?ka * 2 ^ ?sa \<le> real_of_int ?kb * 2 ^ ?sb"
  proof (cases "?sa = ?sb")
    case True
    have "a * denorm / 2 ^ ?sb \<le> b * denorm / 2 ^ ?sb"
      using assms(2) by (simp add: divide_right_mono mult_right_mono)
    then have "round_half_even (a * denorm / 2 ^ ?sb) \<le> ?kb"
      by (rule round_half_even_mono)
    then show ?thesis
      by (simp add: True)
  next
    case False
    with le have lt: "Suc ?sa \<le> ?sb" and pos: "0 < ?sb"
      by simp_all
    have "real_of_int ?ka \<le> of_int (2 ^ 53)"
      using mantissa_bounds(2) [OF assms(1)] by (simp only: of_int_le_iff)
    then have "real_of_int ?ka \<le> 2 ^ 53"
      by (simp only: of_int_power of_int_numeral)
    then have "real_of_int ?ka * 2 ^ ?sa \<le> 2 ^ 53 * 2 ^ ?sa"
      by (simp del: power_numeral)
    also have "\<dots> = 2 ^ 52 * 2 ^ Suc ?sa"
      by simp
    also have "\<dots> \<le> 2 ^ 52 * 2 ^ ?sb"
      using lt by (simp add: power_increasing del: power_numeral power_Suc)
    also have "\<dots> \<le> real_of_int ?kb * 2 ^ ?sb"
    proof -
      have "(of_int (2 ^ 52) :: real) \<le> of_int ?kb"
        using mantissa_bounds(3) [OF b0 pos] by (simp only: of_int_le_iff)
      then have "(2::real) ^ 52 \<le> of_int ?kb"
        by (simp only: of_int_power of_int_numeral)
      then show ?thesis
        by (simp del: power_numeral)
    qed
    finally show ?thesis .
  qed
  then have "real_of_int ?ka * 2 ^ ?sa / denorm \<le> real_of_int ?kb * 2 ^ ?sb / denorm"
    by (simp add: divide_right_mono)
  then show ?thesis
    by (simp only: round_mag_def)
qed

lemma round_mag_upper:
  assumes "0 \<le> a"
  shows "round_mag a \<le> 2 * a + 1"
proof -
  define q where "q = a * denorm"
  define s where "s = nat (bitlen \<lfloor>q\<rfloor> - 53)"
  define k where "k = round_half_even (q / 2 ^ s)"
  have q0: "0 \<le> q"
    using assms by (simp add: q_def)
  have r: "round_mag a = of_int k * 2 ^ s / denorm"
    by (simp add: round_mag_def binade_shift_def q_def s_def k_def)
  have "of_int k \<le> (of_int (\<lfloor>q / 2 ^ s\<rfloor> + 1) :: real)"
    using round_half_even_upper [of "q / 2 ^ s"] by (simp only: k_def of_int_le_iff)
  also have "\<dots> \<le> q / 2 ^ s + 1"
    by simp
  finally have "of_int k * 2 ^ s \<le> (q / 2 ^ s + 1) * 2 ^ s"
    by (simp add: mult_right_mono)
  also have "\<dots> = q + 2 ^ s"
    by (simp add: field_simps)
  finally have u: "of_int k * 2 ^ s \<le> q + 2 ^ s" .
  have one: "(1::real) \<le> denorm"
    by (simp add: denorm_def)
  have "(2::real) ^ s \<le> q + denorm"
  proof (cases "bitlen \<lfloor>q\<rfloor> \<le> 53")
    case True
    then have "s = 0"
      by (simp add: s_def)
    with one q0 show ?thesis
      by simp
  next
    case False
    define L where "L = nat (bitlen \<lfloor>q\<rfloor>)"
    from False have L: "bitlen \<lfloor>q\<rfloor> = int L" "53 < L" and sL: "s = L - 53"
      by (simp_all add: L_def s_def nat_diff_distrib)
    have pos: "0 < \<lfloor>q\<rfloor>"
      using False bitlen_eq_zero_iff [of "\<lfloor>q\<rfloor>"] by (cases "0 < \<lfloor>q\<rfloor>") auto
    have nL: "nat (int L - 1) = L - 1"
      by arith
    from bitlen_bounds [OF pos] have "2 ^ (L - 1) \<le> \<lfloor>q\<rfloor>"
      by (simp add: L nL)
    then have lo: "(2::real) ^ (L - 1) \<le> q"
      by (simp add: le_floor_iff)
    have "s \<le> L - 1"
      by (simp add: sL)
    then have "(2::real) ^ s \<le> 2 ^ (L - 1)"
      by (simp add: power_increasing)
    from this lo have "(2::real) ^ s \<le> q"
      by (rule order_trans)
    with one show ?thesis
      by simp
  qed
  with u have "of_int k * 2 ^ s \<le> 2 * q + denorm"
    by simp
  then have "of_int k * 2 ^ s / denorm \<le> (2 * q + denorm) / denorm"
    by (simp add: divide_right_mono)
  also have "\<dots> = 2 * a + 1"
    by (simp add: q_def field_simps)
  finally show ?thesis
    by (simp only: r)
qed

text \<open>Rounded doubles.\<close>

lemma round_double_dyadic:
  assumes "0 \<le> k" and "k < 2 ^ 53" and "j \<le> 1074"
  shows "round_double sg (of_int k / 2 ^ j) = Fin sg (of_int k / 2 ^ j)"
proof -
  have "(of_int k :: real) < of_int (2 ^ 53)"
    using assms(2) by (simp only: of_int_less_iff)
  then have lt: "(of_int k :: real) < 2 ^ 53"
    by (simp only: of_int_power of_int_numeral)
  have "(2::real) ^ 53 \<le> 2 ^ 53 * 2 ^ j"
    using mult_left_mono [of 1 "2 ^ j" "2 ^ 53 :: real"] by (simp del: power_numeral)
  with lt have "(of_int k :: real) < 2 ^ 53 * 2 ^ j"
    by (rule less_le_trans)
  then have "(of_int k :: real) / 2 ^ j < 2 ^ 53"
    by (simp add: pos_divide_less_eq del: power_numeral)
  also have "\<dots> < (2::real) ^ 1024"
    by simp
  finally show ?thesis
    by (simp add: round_double_def Let_def round_mag_dyadic [OF assms] del: power_numeral)
qed

lemma round_double_numeral:
  assumes "numeral w < (2::int) ^ 53"
  shows "round_double sg (numeral w) = Fin sg (numeral w)"
  using round_double_dyadic [of "numeral w" 0 sg] assms by simp

lemma round_double_zero [simp]: "round_double sg 0 = Fin sg 0"
  by (simp add: round_double_def)

lemma round_double_one [simp]: "round_double sg 1 = Fin sg 1"
  using round_double_dyadic [of 1 0 sg] by simp

lemma round_double_finite:
  assumes "0 \<le> a" and "a \<le> 1"
  shows "is_finite (round_double sg a)"
proof -
  have "round_mag a \<le> 3"
    using round_mag_upper [OF assms(1)] assms(2) by simp
  also have "\<dots> < (2::real) ^ 1024"
    by simp
  finally show ?thesis
    by (simp add: round_double_def Let_def del: power_numeral)
qed

lemma is_double_round:
  assumes "0 \<le> a"
  shows "is_double (round_double sg a)"
  using round_mag_nonneg [OF assms] round_mag_idem [OF assms]
  by (simp add: round_double_def Let_def del: power_numeral)

section \<open>Zeros and sums\<close>

lemma times_zero_zero [simp]: "(0::double) * 0 = 0"
  by (simp add: times_double_def zero_double_def round_double_def)

lemma plus_zero_zero [simp]: "(0::double) + 0 = 0"
  by (simp add: plus_double_def zero_double_def)

lemma minus_zero_zero [simp]: "(0::double) - 0 = 0"
  by (simp add: minus_double_def zero_double_def)

lemma strict_eq_zero_zero [simp]: "strict_eq 0 0"
  by (simp add: zero_double_def)

lemma strict_eq_zero_iff: "strict_eq x 0 \<longleftrightarrow> (\<exists>sg. x = Fin sg 0)"
  by (cases x) (auto simp: zero_double_def)

lemma square_zero:
  assumes "strict_eq x 0"
  shows "x * x = 0"
proof -
  from assms obtain sg where "x = Fin sg 0"
    by (auto simp: strict_eq_zero_iff)
  then show ?thesis
    by (simp add: times_double_def round_double_def zero_double_def)
qed

lemma zero_times_Fin [simp]: "(0::double) * Fin sg m = Fin sg 0"
  by (simp add: times_double_def zero_double_def)

lemma is_finite_cases: "is_finite x \<Longrightarrow> \<exists>sg m. x = Fin sg m"
  by (cases x) simp_all

lemma zero_times_finite:
  assumes "is_finite d"
  shows "\<exists>sg. (0::double) * d = Fin sg 0"
  using assms by (cases d) (simp_all add: times_double_def zero_double_def round_double_def)

lemma one_div_one: "H_BAR_d / MASS_d = Fin False 1"
  by (simp add: H_BAR_d_def MASS_d_def one_double_def divide_double_def round_double_def)

lemma one_times_zero: "Fin False 1 * (0::double) = 0"
  by (simp add: times_double_def zero_double_def round_double_def)

lemma is_double_zero [simp]: "is_double (Fin sg 0)"
  by simp

lemma is_double_add: "is_double (x + y)"
proof (cases x)
  case (Fin s1 m1)
  show ?thesis
  proof (cases y)
    case (Fin s2 m2)
    show ?thesis
      using is_double_round [of "\<bar>number_value x + number_value y\<bar>"]
      by (simp add: plus_double_def \<open>x = Fin s1 m1\<close> \<open>y = Fin s2 m2\<close> Let_def del: is_double.simps)
  qed (simp_all add: plus_double_def \<open>x = Fin s1 m1\<close>)
next
  case (Infinity s1)
  then show ?thesis
    by (cases y) (simp_all add: plus_double_def)
qed (simp add: plus_double_def)

lemma add_zero_right:
  assumes "is_double x"
  shows "same_number (x + Fin sg 0) x"
proof (cases x)
  case (Fin s m)
  show ?thesis
  proof (cases "m = 0")
    case True
    then show ?thesis
      by (simp add: Fin plus_double_def same_number_def zero_double_def)
  next
    case False
    with assms Fin have "0 < m" "m < 2 ^ 1024" "round_mag m = m"
      by simp_all
    then show ?thesis
      by (simp add: Fin plus_double_def same_number_def round_double_def Let_def
          del: power_numeral)
  qed
qed (simp_all add: plus_double_def same_number_def)

section \<open>The loop over doubles\<close>

lemma simulation_loop_d_exit:
  "\<not> i < steps_d cfg \<Longrightarrow> simulation_loop_d cfg i ct p traj = traj"
  by (simp add: simulation_loop_d.simps)

lemma position_d_update_both:
  "p\<lparr>pos_x_d := a, pos_y_d := b\<rparr> = \<lparr>pos_x_d = a, pos_y_d = b\<rparr>"
  by (cases p) simp

lemma simulation_loop_d_step:
  assumes "i < steps_d cfg"
  shows "simulation_loop_d cfg i ct p traj =
    simulation_loop_d cfg (i + 1) (ct + dt_d cfg)
      \<lparr>pos_x_d = sample_x_d (step_d cfg (sample_of ct p)),
       pos_y_d = sample_y_d (step_d cfg (sample_of ct p))\<rparr>
      (traj @ [step_d cfg (sample_of ct p)])"
  using assms
  by (subst simulation_loop_d.simps)
     (simp add: Let_def step_d_def sample_of_def position_d_update_both)

lemma simulation_loop_d_trace:
  "simulation_loop_d cfg i ct p traj =
     traj @ map (\<lambda>k. (step_d cfg ^^ Suc k) (sample_of ct p)) [0..<nat (steps_d cfg - i)]"
proof (induction "nat (steps_d cfg - i)" arbitrary: i ct p traj)
  case 0
  then have "\<not> i < steps_d cfg" by simp
  with 0 show ?case by (simp add: simulation_loop_d_exit)
next
  case (Suc n)
  let ?e = "step_d cfg (sample_of ct p)"
  from Suc.hyps(2) have lt: "i < steps_d cfg" and n: "n = nat (steps_d cfg - (i + 1))"
    by simp_all
  have e': "sample_of (ct + dt_d cfg) \<lparr>pos_x_d = sample_x_d ?e, pos_y_d = sample_y_d ?e\<rparr> = ?e"
    by (simp add: sample_of_def step_d_def Let_def)
  have "simulation_loop_d cfg i ct p traj =
      (traj @ [?e]) @ map (\<lambda>k. (step_d cfg ^^ Suc k) ?e) [0..<n]"
    using Suc.hyps(1) [OF n, of "ct + dt_d cfg"
        "\<lparr>pos_x_d = sample_x_d ?e, pos_y_d = sample_y_d ?e\<rparr>" "traj @ [?e]"]
    by (simp add: simulation_loop_d_step [OF lt] e' n)
  also have "\<dots> = traj @ map (\<lambda>k. (step_d cfg ^^ Suc k) (sample_of ct p)) [0..<Suc n]"
    by (simp add: map_upt_Suc funpow_swap1 del: upt_Suc)
  finally show ?case
    using Suc.hyps(2) by simp
qed

lemma runSimulation_d_trace:
  "runSimulation_d cfg =
     map (\<lambda>k. (step_d cfg ^^ k) (sample_of 0 (initialPosition_d cfg)))
       [0..<Suc (nat (steps_d cfg))]"
proof -
  have "runSimulation_d cfg = [sample_of 0 (initialPosition_d cfg)] @
      map (\<lambda>k. (step_d cfg ^^ Suc k) (sample_of 0 (initialPosition_d cfg))) [0..<nat (steps_d cfg)]"
    by (simp add: runSimulation_d_def Let_def simulation_loop_d_trace sample_of_def)
  also have "\<dots> = map (\<lambda>k. (step_d cfg ^^ k) (sample_of 0 (initialPosition_d cfg)))
       [0..<Suc (nat (steps_d cfg))]"
    by (simp add: map_upt_Suc del: upt_Suc funpow.simps)
  finally show ?thesis .
qed

lemma length_runSimulation_d: "length (runSimulation_d cfg) = Suc (nat (steps_d cfg))"
  by (simp add: runSimulation_d_trace)

lemma runSimulation_d_first: "runSimulation_d cfg ! 0 = sample_of 0 (initialPosition_d cfg)"
  by (simp add: runSimulation_d_trace nth_map_upt del: upt_Suc)

lemma runSimulation_d_next:
  assumes "int k < steps_d cfg"
  shows "runSimulation_d cfg ! Suc k = step_d cfg (runSimulation_d cfg ! k)"
proof -
  from assms have "Suc k < Suc (nat (steps_d cfg))" and "k < Suc (nat (steps_d cfg))"
    by linarith+
  then show ?thesis
    by (simp add: runSimulation_d_trace nth_map_upt del: upt_Suc)
qed

lemma sample_t_d_step [simp]: "sample_t_d (step_d cfg e) = sample_t_d e + dt_d cfg"
  by (simp add: step_d_def Let_def)

lemma runSimulation_d_time:
  "int k \<le> steps_d cfg \<Longrightarrow>
     sample_t_d (runSimulation_d cfg ! k) = ((\<lambda>t. t + dt_d cfg) ^^ k) 0"
proof (induction k)
  case 0
  show ?case
    by (simp add: runSimulation_d_first sample_of_def)
next
  case (Suc k)
  then have "int k < steps_d cfg"
    by simp
  with Suc show ?case
    by (simp add: runSimulation_d_next)
qed

lemma sample_x_d_double:
  assumes "is_double (pos_x_d (initialPosition_d cfg))" and "int k \<le> steps_d cfg"
  shows "is_double (sample_x_d (runSimulation_d cfg ! k))"
proof (cases k)
  case 0
  with assms(1) show ?thesis
    by (simp add: runSimulation_d_first sample_of_def)
next
  case (Suc j)
  with assms(2) have "int j < steps_d cfg"
    by simp
  then show ?thesis
    by (simp add: Suc runSimulation_d_next step_d_def Let_def is_double_add)
qed

lemma sample_y_d_double:
  assumes "is_double (pos_y_d (initialPosition_d cfg))" and "int k \<le> steps_d cfg"
  shows "is_double (sample_y_d (runSimulation_d cfg ! k))"
proof (cases k)
  case 0
  with assms(1) show ?thesis
    by (simp add: runSimulation_d_first sample_of_def)
next
  case (Suc j)
  with assms(2) have "int j < steps_d cfg"
    by simp
  then show ?thesis
    by (simp add: Suc runSimulation_d_next step_d_def Let_def is_double_add)
qed

section \<open>The guard of the division\<close>

text \<open>
  Claim C5, as stated, fails on doubles. The code tests the computed denominator, not
  \<open>b\<close>: for the double \<open>b = (1 / 2 ^ 540, 0)\<close>, which is not zero, the square of
  \<open>b.re\<close> underflows to 0 and \<^verbatim>\<open>divide((1, 0), b)\<close> returns \<open>(0, 0)\<close>, where the quotient
  is \<open>(2 ^ 540, 0)\<close>.
\<close>

theorem divide_d_underflow_counterexample:
  "round_mag (1 / 2 ^ 540) = 1 / 2 ^ 540 \<and>
   \<not> strict_eq (Fin False (1 / 2 ^ 540)) 0 \<and>
   divide_d (complex_d 1 0) (complex_d (Fin False (1 / 2 ^ 540)) 0) = complex_d 0 0 \<and>
   divide_c (complex 1 0) (complex (1 / 2 ^ 540) 0) = complex (2 ^ 540) 0"
proof -
  have rep: "round_mag (1 / 2 ^ 540) = 1 / 2 ^ 540"
    using round_mag_dyadic [of 1 540] by simp
  have nz: "\<not> strict_eq (Fin False (1 / 2 ^ 540)) 0"
    by (simp add: zero_double_def)
  have "round_mag (1 / 2 ^ 540 * (1 / 2 ^ 540)) = 0"
    by (rule round_mag_tiny) (simp_all add: denorm_def)
  then have sq: "Fin False (1 / 2 ^ 540) * Fin False (1 / 2 ^ 540) = 0"
    by (simp add: times_double_def round_double_def zero_double_def del: power_numeral)
  have d: "divide_d (complex_d 1 0) (complex_d (Fin False (1 / 2 ^ 540)) 0) = complex_d 0 0"
    by (simp add: divide_d_def complex_d_def sq Let_def del: power_numeral)
  have e: "divide_c (complex 1 0) (complex (1 / 2 ^ 540) 0) = complex (2 ^ 540) 0"
    by (simp add: divide_c_def complex_def)
  from rep nz d e show ?thesis
    by (simp only: simp_thms)
qed

text \<open>
  Claim C5, amended. \<^verbatim>\<open>divide(a, b)\<close> returns \<open>(0, 0)\<close> when the denominator
  \<^verbatim>\<open>b.re * b.re + b.im * b.im\<close>, computed in double arithmetic, is zero, and otherwise the
  pair of \<^verbatim>\<open>(a.re * b.re + a.im * b.im) / denominator\<close> and
  \<^verbatim>\<open>(a.im * b.re - a.re * b.im) / denominator\<close> computed in double arithmetic. The
  denominator is zero when \<open>b.re\<close> and \<open>b.im\<close> are zeros (of either sign), so
  \<^verbatim>\<open>divide((1, 0), (0, 0))\<close> is \<open>(0, 0)\<close>; it is zero also for non-zero \<open>b\<close> whose squares
  underflow. In exact arithmetic the test is \<open>b = 0\<close>, and the pair is the complex
  quotient \<open>(a * conjugate b) / |b|\<^sup>2\<close>.
\<close>

theorem divide_d_guard:
  "divide_d a b =
     (if strict_eq (re_d b * re_d b + im_d b * im_d b) 0 then complex_d 0 0
      else complex_d ((re_d a * re_d b + im_d a * im_d b) / (re_d b * re_d b + im_d b * im_d b))
                     ((im_d a * re_d b - re_d a * im_d b) / (re_d b * re_d b + im_d b * im_d b))) \<and>
   (strict_eq (re_d b) 0 \<and> strict_eq (im_d b) 0 \<longrightarrow> divide_d a b = complex_d 0 0) \<and>
   divide_d (complex_d 1 0) (complex_d 0 0) = complex_d 0 0 \<and>
   divide_c a' b' =
     (if re b' = 0 \<and> im b' = 0 then complex 0 0
      else complex ((re a' * re b' + im a' * im b') / ((re b')\<^sup>2 + (im b')\<^sup>2))
                   ((im a' * re b' - re a' * im b') / ((re b')\<^sup>2 + (im b')\<^sup>2))) \<and>
   (re b' \<noteq> 0 \<or> im b' \<noteq> 0 \<longrightarrow>
      Complex (re (divide_c a' b')) (im (divide_c a' b')) =
        Complex (re a') (im a') * cnj (Complex (re b') (im b')) /
          of_real ((cmod (Complex (re b') (im b')))\<^sup>2))"
proof -
  have 1: "divide_d a b =
     (if strict_eq (re_d b * re_d b + im_d b * im_d b) 0 then complex_d 0 0
      else complex_d ((re_d a * re_d b + im_d a * im_d b) / (re_d b * re_d b + im_d b * im_d b))
                     ((im_d a * re_d b - re_d a * im_d b) / (re_d b * re_d b + im_d b * im_d b)))"
    by (simp add: divide_d_def Let_def)
  have 2: "divide_d a b = complex_d 0 0" if "strict_eq (re_d b) 0" "strict_eq (im_d b) 0"
    using that by (simp add: 1 square_zero)
  have 3: "divide_d (complex_d 1 0) (complex_d 0 0) = complex_d 0 0"
    by (simp add: divide_d_def complex_d_def)
  have 4: "divide_c a' b' =
     (if re b' = 0 \<and> im b' = 0 then complex 0 0
      else complex ((re a' * re b' + im a' * im b') / ((re b')\<^sup>2 + (im b')\<^sup>2))
                   ((im a' * re b' - re a' * im b') / ((re b')\<^sup>2 + (im b')\<^sup>2)))"
    by (simp add: divide_c_def Let_def denominator_zero_iff power2_eq_square)
  have 5: "Complex (re (divide_c a' b')) (im (divide_c a' b')) =
        Complex (re a') (im a') * cnj (Complex (re b') (im b')) /
          of_real ((cmod (Complex (re b') (im b')))\<^sup>2)" if "re b' \<noteq> 0 \<or> im b' \<noteq> 0"
  proof -
    from that have nz: "(re b')\<^sup>2 + (im b')\<^sup>2 \<noteq> 0"
      by simp
    show ?thesis
      using that nz by (simp add: 4 complex_def complex_eq_iff cmod_power2)
  qed
  from 1 2 3 4 5 show ?thesis
    by blast
qed

theorem divide_d_guard_witness:
  "strict_eq (re_d (complex_d (Fin True 0) 0)) 0 \<and> strict_eq (im_d (complex_d (Fin True 0) 0)) 0 \<and>
   divide_d (complex_d 1 0) (complex_d (Fin True 0) 0) = complex_d 0 0 \<and>
   divide_d (complex_d 1 0) (complex_d (Fin False 2) 0) = complex_d (Fin False (1 / 2)) 0 \<and>
   divide_c (complex 1 2) (complex 3 4) = complex (11 / 25) (2 / 25)"
proof -
  have z: "strict_eq (re_d (complex_d (Fin True 0) 0)) 0"
      "strict_eq (im_d (complex_d (Fin True 0) 0)) 0"
    by (simp_all add: complex_d_def zero_double_def)
  have g: "divide_d (complex_d 1 0) (complex_d (Fin True 0) 0) = complex_d 0 0"
    using divide_d_guard [of "complex_d 1 0" "complex_d (Fin True 0) 0"] z by blast
  have r4: "round_double sg 4 = Fin sg 4" and r2: "round_double sg 2 = Fin sg 2"
    and rh: "round_double sg (1 / 2) = Fin sg (1 / 2)" for sg
    using round_double_dyadic [of 4 0 sg] round_double_dyadic [of 2 0 sg]
      round_double_dyadic [of 1 1 sg] by simp_all
  have r0: "round_double sg 0 = Fin sg 0" for sg
    by (simp add: round_double_def)
  have ne: "\<not> strict_eq (Fin False 2 * Fin False 2 + 0 * 0) 0"
    by (simp add: times_double_def plus_double_def zero_double_def r4 r0)
  have q: "divide_d (complex_d 1 0) (complex_d (Fin False 2) 0) = complex_d (Fin False (1 / 2)) 0"
    using divide_d_guard [of "complex_d 1 0" "complex_d (Fin False 2) 0"] ne
    by (simp add: complex_d_def)
       (simp add: times_double_def plus_double_def minus_double_def divide_double_def
          zero_double_def one_double_def r4 r2 r0 rh)
  have c: "divide_c (complex 1 2) (complex 3 4) = complex (11 / 25) (2 / 25)"
    using divide_d_guard [of a b "complex 1 2" "complex 3 4"] by (simp add: complex_def)
  from z g q c show ?thesis
    by (simp only: simp_thms)
qed

section \<open>The Euler step on doubles\<close>

lemma tenth_sums:
  "0 + tenth = tenth"
  "tenth + tenth = fifth"
  "fifth + tenth = three_tenths_up"
  "three_tenths_up - fifth = tenth_up"
proof -
  have a: "round_double False (7205759403792794 / 2 ^ 56) = Fin False (7205759403792794 / 2 ^ 56)"
    using round_double_dyadic [of 7205759403792794 56 False] by simp
  have b: "round_double False (7205759403792794 / 2 ^ 55) = Fin False (7205759403792794 / 2 ^ 55)"
    using round_double_dyadic [of 7205759403792794 55 False] by simp
  have "round_mag ((10808639105689191 / 2) / 2 ^ 54) =
      of_int (round_half_even (10808639105689191 / 2)) / 2 ^ 54"
    by (rule round_mag_binade) simp_all
  moreover have "round_half_even (10808639105689191 / 2) = 5404319552844596"
    by (simp add: round_half_even_def Let_def)
  ultimately have "round_mag (10808639105689191 / 2 ^ 55) = 5404319552844596 / 2 ^ 54"
    by simp
  then have c: "round_double False (10808639105689191 / 2 ^ 55) =
      Fin False (5404319552844596 / 2 ^ 54)"
    by (simp add: round_double_def)
  have d: "round_double False (7205759403792796 / 2 ^ 56) = Fin False (7205759403792796 / 2 ^ 56)"
    using round_double_dyadic [of 7205759403792796 56 False] by simp
  show "0 + tenth = tenth"
    using a by (simp add: tenth_def plus_double_def zero_double_def)
  show "tenth + tenth = fifth"
    using b by (simp add: tenth_def fifth_def plus_double_def)
  show "fifth + tenth = three_tenths_up"
    using c by (simp add: tenth_def fifth_def three_tenths_up_def plus_double_def)
  show "three_tenths_up - fifth = tenth_up"
    using d by (simp add: minus_double_def fifth_def three_tenths_up_def tenth_up_def)
qed

text \<open>
  Claim C1, as stated, fails on doubles: consecutive times do not differ by exactly
  \<open>dt\<close>. For the example of the source with \<^verbatim>\<open>dt = 0.1\<close> and three steps, the times of
  entries 2 and 3 are the doubles \<^verbatim>\<open>0.2\<close> and \<^verbatim>\<open>0.30000000000000004\<close>; their difference
  is the double \<^verbatim>\<open>0.10000000000000003\<close>, which is not \<open>dt\<close>.
\<close>

theorem runSimulation_d_time_counterexample:
  "valid_config_d tenth_config \<and>
   dt_d tenth_config = Fin False (7205759403792794 / 2 ^ 56) \<and>
   sample_t_d (runSimulation_d tenth_config ! 2) = Fin False (7205759403792794 / 2 ^ 55) \<and>
   sample_t_d (runSimulation_d tenth_config ! 3) = Fin False (5404319552844596 / 2 ^ 54) \<and>
   sample_t_d (runSimulation_d tenth_config ! 3) - sample_t_d (runSimulation_d tenth_config ! 2) =
     Fin False (7205759403792796 / 2 ^ 56) \<and>
   \<not> strict_eq
       (sample_t_d (runSimulation_d tenth_config ! 3) - sample_t_d (runSimulation_d tenth_config ! 2))
       (dt_d tenth_config)"
proof -
  have v: "valid_config_d tenth_config"
    by (simp add: valid_config_d_def tenth_config_def tenth_def less_double_def
        zero_double_def one_double_def)
  have dt: "dt_d tenth_config = tenth"
    by (simp add: tenth_config_def)
  have "int 2 \<le> steps_d tenth_config" and "int 3 \<le> steps_d tenth_config"
    by (simp_all add: tenth_config_def)
  from runSimulation_d_time [OF this(1)] runSimulation_d_time [OF this(2)]
  have t2: "sample_t_d (runSimulation_d tenth_config ! 2) = fifth"
    and t3: "sample_t_d (runSimulation_d tenth_config ! 3) = three_tenths_up"
    by (simp_all add: dt numeral_2_eq_2 numeral_3_eq_3 tenth_sums)
  have ne: "\<not> strict_eq tenth_up tenth"
    by (simp add: tenth_def tenth_up_def)
  have "valid_config_d tenth_config \<and>
   dt_d tenth_config = tenth \<and>
   sample_t_d (runSimulation_d tenth_config ! 2) = fifth \<and>
   sample_t_d (runSimulation_d tenth_config ! 3) = three_tenths_up \<and>
   sample_t_d (runSimulation_d tenth_config ! 3) - sample_t_d (runSimulation_d tenth_config ! 2) =
     tenth_up \<and>
   \<not> strict_eq
       (sample_t_d (runSimulation_d tenth_config ! 3) - sample_t_d (runSimulation_d tenth_config ! 2))
       (dt_d tenth_config)"
    using v ne by (simp only: dt t2 t3 tenth_sums simp_thms)
  then show ?thesis
    unfolding tenth_def fifth_def three_tenths_up_def tenth_up_def .
qed

text \<open>A sum with a positive double is not below the time it is added to.\<close>

lemma positive_double_cases:
  assumes "0 < d" and "is_double d"
  shows "d = Infinity False \<or> (\<exists>m. d = Fin False m \<and> 0 < m)"
proof (cases d)
  case (Fin sg m)
  with assms show ?thesis
    by (cases sg) (simp_all add: less_double_def zero_double_def)
next
  case (Infinity sg)
  with assms show ?thesis
    by (simp add: less_double_def zero_double_def)
next
  case NaN
  with assms show ?thesis
    by (simp add: less_double_def zero_double_def)
qed

lemma time_step_nondecreasing:
  assumes "nonneg_double t" and "0 < d" and "is_double d"
  shows "nonneg_double (t + d) \<and> t \<le> t + d"
proof -
  from positive_double_cases [OF assms(2,3)]
  consider "d = Infinity False" | m where "d = Fin False m" "0 < m"
    by blast
  then show ?thesis
  proof cases
    case 1
    with assms(1) show ?thesis
      by (auto simp: nonneg_double_def plus_double_def less_eq_double_def)
  next
    case 2
    from assms(1) consider "t = Infinity False" | r where "t = Fin False r" "0 \<le> r" "round_mag r = r"
      by (auto simp: nonneg_double_def)
    then show ?thesis
    proof cases
      case 1
      with 2 show ?thesis
        by (simp add: nonneg_double_def plus_double_def less_eq_double_def)
    next
      case b: 2
      have pos: "0 < r + m"
        using b(2) 2(2) by simp
      have "round_mag r \<le> round_mag (r + m)"
        using b(2) 2(2) by (intro round_mag_mono) simp_all
      then have ge: "r \<le> round_mag (r + m)"
        by (simp only: b(3))
      have idem: "round_mag (round_mag (r + m)) = round_mag (r + m)"
        using pos by (intro round_mag_idem) simp
      have nn: "0 \<le> round_mag (r + m)"
        using b(2) ge by simp
      have sum: "t + d = round_double False (r + m)"
        using pos by (simp add: 2(1) b(1) plus_double_def)
      show ?thesis
      proof (cases "2 ^ 1024 \<le> round_mag (r + m)")
        case True
        then have "t + d = Infinity False"
          by (simp add: sum round_double_def del: power_numeral)
        then show ?thesis
          by (simp add: nonneg_double_def b(1) less_eq_double_def)
      next
        case False
        then have "t + d = Fin False (round_mag (r + m))"
          by (simp add: sum round_double_def del: power_numeral)
        then show ?thesis
          using ge idem nn by (auto simp: nonneg_double_def b(1) less_eq_double_def)
      qed
    qed
  qed
qed

lemma runSimulation_d_time_nonneg:
  assumes "0 < dt_d cfg" and "is_double (dt_d cfg)" and "int k \<le> steps_d cfg"
  shows "nonneg_double (sample_t_d (runSimulation_d cfg ! k))"
  using assms(3)
proof (induction k)
  case 0
  show ?case
    by (simp add: runSimulation_d_first sample_of_def nonneg_double_def zero_double_def)
next
  case (Suc k)
  then have k: "int k < steps_d cfg" and IH: "nonneg_double (sample_t_d (runSimulation_d cfg ! k))"
    by simp_all
  from time_step_nondecreasing [OF IH assms(1,2)] show ?case
    by (simp add: runSimulation_d_next [OF k])
qed

lemma runSimulation_d_time_nondecreasing:
  assumes "0 < dt_d cfg" and "is_double (dt_d cfg)" and "int k < steps_d cfg"
  shows "sample_t_d (runSimulation_d cfg ! k) \<le> sample_t_d (runSimulation_d cfg ! Suc k)"
proof -
  from assms(3) have "int k \<le> steps_d cfg"
    by simp
  from runSimulation_d_time_nonneg [OF assms(1,2) this]
  have "nonneg_double (sample_t_d (runSimulation_d cfg ! k))" .
  from time_step_nondecreasing [OF this assms(1,2)] show ?thesis
    by (simp add: runSimulation_d_next [OF assms(3)])
qed

text \<open>
  Claim C1, amended. For a valid configuration of doubles and every step index
  \<open>k < steps\<close>, entry \<open>k + 1\<close> of the trajectory is
  \<open>(t + dt, x + vX * dt, y + vY * dt)\<close> for the entry \<open>(t, x, y)\<close> at \<open>k\<close>, every
  operation being the one of double arithmetic. The velocity is obtained at \<open>(x, y)\<close> by
  adding the two packets' values and gradients component by component, dividing each
  gradient component by the total value with \<^verbatim>\<open>divide\<close>, and taking \<open>(\<hbar>/mass) * Im\<close> of
  the quotient, with \<open>\<hbar> = mass = 1\<close>. The time of entry \<open>k + 1\<close> is the rounded sum
  \<open>t + dt\<close>: times never decrease, and they differ by \<open>dt\<close> only up to that rounding.
\<close>

theorem runSimulation_d_euler_step:
  assumes "valid_config_d cfg" and "is_double (dt_d cfg)" and "int k < steps_d cfg"
  shows "let tr = runSimulation_d cfg;
             t = sample_t_d (tr ! k);
             x = sample_x_d (tr ! k);
             y = sample_y_d (tr ! k);
             psi1 = gaussianPacket_d x y (slit1_d cfg);
             psi2 = gaussianPacket_d x y (slit2_d cfg);
             grad1 = gaussianPacketGradient_d x y (slit1_d cfg);
             grad2 = gaussianPacketGradient_d x y (slit2_d cfg);
             totalValue = \<lparr>re_d = re_d psi1 + re_d psi2, im_d = im_d psi1 + im_d psi2\<rparr>;
             totalGradient_x = \<lparr>re_d = re_d (fst grad1) + re_d (fst grad2),
                                im_d = im_d (fst grad1) + im_d (fst grad2)\<rparr>;
             totalGradient_y = \<lparr>re_d = re_d (snd grad1) + re_d (snd grad2),
                                im_d = im_d (snd grad1) + im_d (snd grad2)\<rparr>;
             vX = (H_BAR_d / MASS_d) * im_d (divide_d totalGradient_x totalValue);
             vY = (H_BAR_d / MASS_d) * im_d (divide_d totalGradient_y totalValue)
         in tr ! Suc k =
              \<lparr>sample_t_d = t + dt_d cfg,
               sample_x_d = x + vX * dt_d cfg,
               sample_y_d = y + vY * dt_d cfg\<rparr> \<and>
            H_BAR_d = Fin False 1 \<and> MASS_d = Fin False 1 \<and>
            t \<le> sample_t_d (tr ! Suc k)"
proof -
  from assms(1) have "0 < dt_d cfg"
    by (simp add: valid_config_d_def)
  from runSimulation_d_time_nondecreasing [OF this assms(2,3)]
  have "sample_t_d (runSimulation_d cfg ! k) \<le> sample_t_d (runSimulation_d cfg ! Suc k)" .
  then show ?thesis
    using runSimulation_d_next [OF assms(3)]
    by (simp add: Let_def step_d_def add_d_def complex_d_def H_BAR_d_def MASS_d_def
        one_double_def)
qed

theorem runSimulation_d_euler_step_witness:
  "valid_config_d tenth_config \<and> is_double (dt_d tenth_config) \<and>
   int 0 < steps_d tenth_config \<and>
   sample_t_d (runSimulation_d tenth_config ! 1) = Fin False (7205759403792794 / 2 ^ 56) \<and>
   sample_t_d (runSimulation_d tenth_config ! 0) \<le> sample_t_d (runSimulation_d tenth_config ! 1)"
proof -
  have v: "valid_config_d tenth_config"
    by (simp add: valid_config_d_def tenth_config_def tenth_def less_double_def
        zero_double_def one_double_def)
  have "round_mag (7205759403792794 / 2 ^ 56) = 7205759403792794 / 2 ^ 56"
    using round_mag_dyadic [of 7205759403792794 56] by simp
  then have d: "is_double (dt_d tenth_config)"
    by (simp add: tenth_config_def tenth_def)
  have k: "int 0 < steps_d tenth_config"
    by (simp add: tenth_config_def)
  note step = runSimulation_d_euler_step [OF v d k, unfolded Let_def]
  have s: "sample_t_d (runSimulation_d tenth_config ! Suc 0) =
      sample_t_d (runSimulation_d tenth_config ! 0) + dt_d tenth_config"
    using step [THEN conjunct1] by simp
  have le: "sample_t_d (runSimulation_d tenth_config ! 0) \<le>
      sample_t_d (runSimulation_d tenth_config ! Suc 0)"
    by (rule step [THEN conjunct2, THEN conjunct2, THEN conjunct2])
  have "sample_t_d (runSimulation_d tenth_config ! 0) + dt_d tenth_config = 0 + tenth"
    by (simp add: runSimulation_d_first sample_of_def tenth_config_def)
  also have "\<dots> = tenth"
    by (rule tenth_sums)
  finally have "sample_t_d (runSimulation_d tenth_config ! 1) = tenth"
    using s by simp
  with v d k le show ?thesis
    unfolding tenth_def by (simp only: One_nat_def simp_thms)
qed

section \<open>Nodes of the wave function\<close>

lemma divide_d_node:
  assumes "strict_eq (re_d b) 0" and "strict_eq (im_d b) 0"
  shows "divide_d a b = complex_d 0 0"
  using assms by (simp add: divide_d_def Let_def square_zero)

text \<open>
  Claim C7. The loop has no early exit: a valid run returns \<open>steps + 1\<close> entries. At a
  step where both components of the superposed value are zeros, \<^verbatim>\<open>divide\<close> returns its
  placeholder and both velocity components are the double \<open>0\<close>, not \<^verbatim>\<open>NaN\<close>; the time
  advances to \<open>t + dt\<close>, and each coordinate is the same number as before, so a finite
  coordinate stays finite. The numbers of the configuration are doubles and \<open>dt\<close> is
  finite, as the specification has its inputs (section 4.2); with an infinite \<open>dt\<close> the
  product \<open>0 * dt\<close> is \<^verbatim>\<open>NaN\<close>.
\<close>

theorem runSimulation_d_node_step:
  assumes "valid_config_d cfg" and "is_finite (dt_d cfg)"
    and "is_double (pos_x_d (initialPosition_d cfg))"
    and "is_double (pos_y_d (initialPosition_d cfg))"
    and "int k < steps_d cfg"
    and "strict_eq
           (re_d (gaussianPacket_d (sample_x_d (runSimulation_d cfg ! k))
                    (sample_y_d (runSimulation_d cfg ! k)) (slit1_d cfg)) +
            re_d (gaussianPacket_d (sample_x_d (runSimulation_d cfg ! k))
                    (sample_y_d (runSimulation_d cfg ! k)) (slit2_d cfg))) 0"
    and "strict_eq
           (im_d (gaussianPacket_d (sample_x_d (runSimulation_d cfg ! k))
                    (sample_y_d (runSimulation_d cfg ! k)) (slit1_d cfg)) +
            im_d (gaussianPacket_d (sample_x_d (runSimulation_d cfg ! k))
                    (sample_y_d (runSimulation_d cfg ! k)) (slit2_d cfg))) 0"
  shows "let tr = runSimulation_d cfg;
             x = sample_x_d (tr ! k);
             y = sample_y_d (tr ! k);
             psi1 = gaussianPacket_d x y (slit1_d cfg);
             psi2 = gaussianPacket_d x y (slit2_d cfg);
             grad1 = gaussianPacketGradient_d x y (slit1_d cfg);
             grad2 = gaussianPacketGradient_d x y (slit2_d cfg);
             totalValue = \<lparr>re_d = re_d psi1 + re_d psi2, im_d = im_d psi1 + im_d psi2\<rparr>;
             totalGradient_x = \<lparr>re_d = re_d (fst grad1) + re_d (fst grad2),
                                im_d = im_d (fst grad1) + im_d (fst grad2)\<rparr>;
             totalGradient_y = \<lparr>re_d = re_d (snd grad1) + re_d (snd grad2),
                                im_d = im_d (snd grad1) + im_d (snd grad2)\<rparr>
         in (H_BAR_d / MASS_d) * im_d (divide_d totalGradient_x totalValue) = Fin False 0 \<and>
            (H_BAR_d / MASS_d) * im_d (divide_d totalGradient_y totalValue) = Fin False 0 \<and>
            sample_t_d (tr ! Suc k) = sample_t_d (tr ! k) + dt_d cfg \<and>
            same_number (sample_x_d (tr ! Suc k)) x \<and>
            same_number (sample_y_d (tr ! Suc k)) y \<and>
            (is_finite x \<longrightarrow> is_finite (sample_x_d (tr ! Suc k))) \<and>
            (is_finite y \<longrightarrow> is_finite (sample_y_d (tr ! Suc k))) \<and>
            int (length tr) = steps_d cfg + 1"
proof -
  let ?tr = "runSimulation_d cfg"
  let ?x = "sample_x_d (?tr ! k)" and ?y = "sample_y_d (?tr ! k)"
  let ?total = "add_d (gaussianPacket_d ?x ?y (slit1_d cfg)) (gaussianPacket_d ?x ?y (slit2_d cfg))"
  have node: "strict_eq (re_d ?total) 0" "strict_eq (im_d ?total) 0"
    using assms(6,7) by (simp_all add: add_d_def complex_d_def)
  have v: "(H_BAR_d / MASS_d) * im_d (divide_d g ?total) = 0" for g
    by (simp add: divide_d_node [OF node] one_div_one complex_d_def one_times_zero)
  from zero_times_finite [OF assms(2)] obtain sg where z: "0 * dt_d cfg = Fin sg 0"
    by blast
  have k: "int k \<le> steps_d cfg"
    using assms(5) by simp
  have dx: "is_double ?x" and dy: "is_double ?y"
    using sample_x_d_double [OF assms(3) k] sample_y_d_double [OF assms(4) k] by simp_all
  have next_entry: "?tr ! Suc k = step_d cfg (?tr ! k)"
    by (rule runSimulation_d_next [OF assms(5)])
  have sx: "sample_x_d (?tr ! Suc k) = ?x + Fin sg 0"
    and sy: "sample_y_d (?tr ! Suc k) = ?y + Fin sg 0"
    and st: "sample_t_d (?tr ! Suc k) = sample_t_d (?tr ! k) + dt_d cfg"
    by (simp_all add: next_entry step_d_def Let_def v z)
  have samex: "same_number (sample_x_d (?tr ! Suc k)) ?x"
    and samey: "same_number (sample_y_d (?tr ! Suc k)) ?y"
    using add_zero_right [OF dx, of sg] add_zero_right [OF dy, of sg] by (simp_all add: sx sy)
  have fin: "is_finite b \<Longrightarrow> is_finite a" if "same_number a b" for a b
    using that by (cases a; cases b) (auto simp: same_number_def zero_double_def)
  from assms(1) have "0 \<le> steps_d cfg"
    by (simp add: valid_config_d_def)
  then have len: "int (length ?tr) = steps_d cfg + 1"
    by (simp add: length_runSimulation_d)
  have v': "(H_BAR_d / MASS_d) * im_d (divide_d g
      \<lparr>re_d = re_d (gaussianPacket_d ?x ?y (slit1_d cfg)) + re_d (gaussianPacket_d ?x ?y (slit2_d cfg)),
       im_d = im_d (gaussianPacket_d ?x ?y (slit1_d cfg)) + im_d (gaussianPacket_d ?x ?y (slit2_d cfg))\<rparr>)
      = Fin False 0" for g
    using v [of g] by (simp add: add_d_def complex_d_def zero_double_def)
  show ?thesis
    using samex samey st len fin [OF samex] fin [OF samey]
    by (simp add: Let_def v')
qed

text \<open>The packets of \<open>far_config\<close> at the origin: the magnitude underflows.\<close>

lemma Math_cos_finite: "is_finite x \<Longrightarrow> is_finite (Math_cos x)"
  by (cases x) (simp_all add: Math_cos_def round_double_finite)

lemma Math_sin_finite: "is_finite x \<Longrightarrow> is_finite (Math_sin x)"
  by (cases x) (simp_all add: Math_sin_def round_double_finite)

lemma exp_minus_nat_le: "exp (- real n) \<le> (1 / 2) ^ n"
proof -
  have "exp (- real n) = exp (- 1) ^ n"
    using exp_of_nat_mult [of n "- 1"] by simp
  moreover have "exp (- 1 :: real) \<le> 1 / 2"
  proof -
    have "(2::real) \<le> exp 1"
      using exp_ge_add_one_self [of 1] by simp
    then show ?thesis
      by (simp add: exp_minus field_simps)
  qed
  ultimately show ?thesis
    by (simp add: power_mono)
qed

lemma Math_exp_underflow: "Math_exp (Fin True 2500) = 0"
proof -
  have e: "exp (- 2500 :: real) \<le> (1 / 2) ^ 2500"
    using exp_minus_nat_le [of 2500] by simp
  have "exp (- 2500 :: real) * denorm \<le> (1 / 2) ^ 2500 * denorm"
    using e by (rule mult_right_mono) simp
  moreover have "(1 / 2 :: real) ^ 2500 * denorm < 1 / 2"
  proof -
    have "(1 / 2 :: real) ^ 2500 = (1 / 2) ^ 1426 * (1 / 2) ^ 1074"
      by (simp add: power_add [symmetric] del: power_numeral)
    moreover have "(1 / 2 :: real) ^ 1074 * denorm = 1"
      by (simp add: denorm_def power_mult_distrib [symmetric] del: power_numeral)
    ultimately have "(1 / 2 :: real) ^ 2500 * denorm = (1 / 2) ^ 1426"
      by (simp only: mult.assoc mult_1_right)
    moreover have "(1 / 2 :: real) ^ 1426 \<le> (1 / 2) ^ 2"
      by (rule power_decreasing) simp_all
    ultimately show ?thesis
      by (simp add: power2_eq_square del: power_numeral)
  qed
  ultimately have "exp (- 2500 :: real) * denorm < 1 / 2"
    by (rule le_less_trans)
  then have "round_mag (exp (- 2500)) = 0"
    by (intro round_mag_tiny) simp_all
  then show ?thesis
    by (simp add: Math_exp_def round_double_def zero_double_def)
qed

lemma multiply_d_zero:
  assumes "is_finite c" and "is_finite s"
  shows "strict_eq (re_d (multiply_d (complex_d 0 0) (complex_d c s))) 0 \<and>
    strict_eq (im_d (multiply_d (complex_d 0 0) (complex_d c s))) 0"
proof -
  from is_finite_cases [OF assms(1)] is_finite_cases [OF assms(2)]
  obtain sc mc ss ms where "c = Fin sc mc" "s = Fin ss ms"
    by blast
  then show ?thesis
    by (simp add: multiply_d_def complex_d_def)
       (simp add: plus_double_def minus_double_def zero_double_def)
qed

lemma far_packet_node:
  "strict_eq (re_d (gaussianPacket_d 0 0
      \<lparr>centerX_d = 0, centerY_d = Fin sg 100, width_d = 1,
       momentumX_d = 0, momentumY_d = Fin False 5\<rparr>)) 0 \<and>
   strict_eq (im_d (gaussianPacket_d 0 0
      \<lparr>centerX_d = 0, centerY_d = Fin sg 100, width_d = 1,
       momentumX_d = 0, momentumY_d = Fin False 5\<rparr>)) 0"
proof -
  have dy: "(0::double) - Fin sg 100 = Fin (\<not> sg) 100"
    by (cases sg) (simp_all add: minus_double_def plus_double_def zero_double_def
        round_double_numeral)
  have sq: "Fin (\<not> sg) 100 * Fin (\<not> sg) 100 = Fin False 10000"
    by (simp add: times_double_def round_double_numeral)
  have sum: "(0::double) + Fin False 10000 = Fin False 10000"
    by (simp add: plus_double_def zero_double_def round_double_numeral)
  have w: "Fin False 4 * ((1::double) * 1) = Fin False 4"
    by (simp add: times_double_def one_double_def round_double_numeral)
  have q: "- Fin False 10000 / Fin False 4 = Fin True 2500"
    by (simp add: uminus_double_def divide_double_def round_double_numeral)
  have p: "(0 + Fin False 5 * Fin (\<not> sg) 100) / H_BAR_d = Fin (\<not> sg) 500"
    by (cases sg) (simp_all add: times_double_def plus_double_def divide_double_def
        zero_double_def one_double_def H_BAR_d_def round_double_numeral)
  have c: "is_finite (Math_cos (Fin (\<not> sg) 500))" and s: "is_finite (Math_sin (Fin (\<not> sg) 500))"
    by (simp_all add: Math_cos_finite Math_sin_finite)
  show ?thesis
    using multiply_d_zero [OF c s]
    by (simp add: gaussianPacket_d_def Let_def dy sq sum w q p Math_exp_underflow)
qed

theorem runSimulation_d_node_step_witness:
  "valid_config_d far_config \<and> is_finite (dt_d far_config) \<and>
   is_double (pos_x_d (initialPosition_d far_config)) \<and>
   is_double (pos_y_d (initialPosition_d far_config)) \<and>
   strict_eq (re_d (gaussianPacket_d 0 0 (slit1_d far_config)) +
              re_d (gaussianPacket_d 0 0 (slit2_d far_config))) 0 \<and>
   strict_eq (im_d (gaussianPacket_d 0 0 (slit1_d far_config)) +
              im_d (gaussianPacket_d 0 0 (slit2_d far_config))) 0 \<and>
   sample_t_d (runSimulation_d far_config ! 1) = Fin False (5764607523034235 / 2 ^ 58) \<and>
   strict_eq (sample_x_d (runSimulation_d far_config ! 1)) 0 \<and>
   strict_eq (sample_y_d (runSimulation_d far_config ! 1)) 0 \<and>
   length (runSimulation_d far_config) = 2"
proof -
  let ?tr = "runSimulation_d far_config"
  have v: "valid_config_d far_config"
    by (simp add: valid_config_d_def far_config_def less_double_def zero_double_def
        one_double_def)
  have f: "is_finite (dt_d far_config)"
    by (simp add: far_config_def)
  have ix: "is_double (pos_x_d (initialPosition_d far_config))"
    and iy: "is_double (pos_y_d (initialPosition_d far_config))"
    by (simp_all add: far_config_def zero_double_def)
  have k: "int 0 < steps_d far_config"
    by (simp add: far_config_def)
  have first: "?tr ! 0 = \<lparr>sample_t_d = 0, sample_x_d = 0, sample_y_d = 0\<rparr>"
    by (simp add: runSimulation_d_first sample_of_def far_config_def)
  have zz: "strict_eq (a + b) 0" if "strict_eq a 0" "strict_eq b 0" for a b
  proof -
    from that obtain s1 s2 where "a = Fin s1 0" "b = Fin s2 0"
      by (auto simp: strict_eq_zero_iff)
    then show ?thesis
      by (simp add: plus_double_def zero_double_def)
  qed
  have n1: "strict_eq (re_d (gaussianPacket_d 0 0 (slit1_d far_config)) +
              re_d (gaussianPacket_d 0 0 (slit2_d far_config))) 0"
    and n2: "strict_eq (im_d (gaussianPacket_d 0 0 (slit1_d far_config)) +
              im_d (gaussianPacket_d 0 0 (slit2_d far_config))) 0"
    using far_packet_node [of False] far_packet_node [of True]
    by (simp_all add: far_config_def zz)
  have dt: "(0::double) + dt_d far_config = Fin False (5764607523034235 / 2 ^ 58)"
    using round_double_dyadic [of 5764607523034235 58 False]
    by (simp add: far_config_def plus_double_def zero_double_def)
  from runSimulation_d_node_step [OF v f ix iy k] n1 n2
  have t: "sample_t_d (?tr ! Suc 0) = 0 + dt_d far_config"
    and x: "same_number (sample_x_d (?tr ! Suc 0)) 0"
    and y: "same_number (sample_y_d (?tr ! Suc 0)) 0"
    and len: "int (length ?tr) = steps_d far_config + 1"
    by (simp_all add: first Let_def)
  have sz: "strict_eq a 0" if "same_number a 0" for a
    using that by (auto simp: same_number_def)
  have "length ?tr = 2"
    using len by (simp add: far_config_def)
  with v f ix iy n1 n2 t dt sz [OF x] sz [OF y] show ?thesis
    by simp
qed

end
